theory Spec2Isabelle
  imports Complex_Main
begin

section \<open>The world of game.js\<close>

text \<open>
  The game keeps one immutable \<open>world\<close> object and sends it through a fixed list of
  systems once per frame. This theory embeds the world, the entity factories and the eight
  systems of \<open>src/game.js\<close>, and proves the properties the specification states about them.

  Conventions of the embedding:
  \<^item> A JavaScript number is a \<open>real\<close>: rounding of doubles, \<open>NaN\<close> and the infinities are
    not modelled. The score is a count and is an \<open>int\<close>.
  \<^item> A component that may be missing from \<open>e.components\<close> is an \<open>option\<close>. Reading a
    property of a missing component raises a \<open>TypeError\<close> in JavaScript; the systems that
    can do so return \<open>error + world\<close>, with \<open>Inl TypeError\<close> for the exception.
  \<^item> The globals a system reads are parameters: the canvas, the keyboard state
    \<open>inputState\<close>, and the two values \<open>Math.random()\<close> returns in the spawner.
\<close>

datatype error = TypeError

record position_comp =
  pos_x :: real
  pos_y :: real

record size_comp =
  size_w :: real
  size_h :: real

record falling_comp =
  baseSpeed :: real
  speed :: real

record tag_comp =
  kind :: string

record components =
  position :: "position_comp option"
  size_c :: "size_comp option"
  falling :: "falling_comp option"
  tag :: "tag_comp option"

record entity =
  entity_id :: string
  components :: components

record spawn_state =
  spawn_last :: real
  baseInterval :: real
  interval :: real
  minInterval :: real

record game_state =
  over :: bool

record difficulty_state =
  step :: real
  factor :: real

record input_state =
  left :: bool
  right :: bool

record world =
  entities :: "entity list"
  time :: real
  spawn :: spawn_state
  score :: int
  game :: game_state
  difficulty :: difficulty_state
  input :: "input_state option"

record canvas =
  canvas_width :: real
  canvas_height :: real

definition PLAYER_SIZE :: real where
  "PLAYER_SIZE = 150"

definition BLOCK_SIZE :: real where
  "BLOCK_SIZE = 70"

definition createWorld :: world where
  "createWorld =
     \<lparr>entities = [], time = 0,
      spawn = \<lparr>spawn_last = 0, baseInterval = 0.8, interval = 0.8, minInterval = 0.25\<rparr>,
      score = 0, game = \<lparr>over = False\<rparr>,
      difficulty = \<lparr>step = 30, factor = 1.25\<rparr>,
      input = None\<rparr>"

definition addEntity :: "world \<Rightarrow> entity \<Rightarrow> world" where
  "addEntity w e = w\<lparr>entities := entities w @ [e]\<rparr>"

definition player :: "canvas \<Rightarrow> entity" where
  "player cv =
     \<lparr>entity_id = ''player'',
      components =
        \<lparr>position = Some \<lparr>pos_x = canvas_width cv / 2 - PLAYER_SIZE / 2,
                           pos_y = canvas_height cv - PLAYER_SIZE - 20\<rparr>,
         size_c = Some \<lparr>size_w = PLAYER_SIZE, size_h = PLAYER_SIZE\<rparr>,
         falling = None, tag = None\<rparr>\<rparr>"

definition initial_world :: "canvas \<Rightarrow> world" where
  "initial_world cv = addEntity createWorld (player cv)"

subsection \<open>Exceptions as values\<close>

definition and_then :: "error + 'a \<Rightarrow> ('a \<Rightarrow> error + 'b) \<Rightarrow> error + 'b" where
  "and_then r f = (case r of Inl err \<Rightarrow> Inl err | Inr v \<Rightarrow> f v)"

text \<open>\<open>Array.prototype.map\<close> with a callback that may throw: the first exception ends the
  traversal.\<close>

fun map_result :: "('a \<Rightarrow> error + 'b) \<Rightarrow> 'a list \<Rightarrow> error + 'b list" where
  "map_result f [] = Inr []"
| "map_result f (v # vs) =
     and_then (f v) (\<lambda>v'. and_then (map_result f vs) (\<lambda>vs'. Inr (v' # vs')))"

text \<open>\<open>Array.prototype.filter\<close> with a callback that may throw.\<close>

fun filter_result :: "('a \<Rightarrow> error + bool) \<Rightarrow> 'a list \<Rightarrow> error + 'a list" where
  "filter_result f [] = Inr []"
| "filter_result f (v # vs) =
     and_then (f v) (\<lambda>keep. and_then (filter_result f vs)
       (\<lambda>vs'. Inr (if keep then v # vs' else vs')))"

text \<open>\<open>Array.prototype.some\<close>: stops at the first element the callback accepts.\<close>

fun some_result :: "('a \<Rightarrow> error + bool) \<Rightarrow> 'a list \<Rightarrow> error + bool" where
  "some_result f [] = Inr False"
| "some_result f (v # vs) =
     and_then (f v) (\<lambda>found. if found then Inr True else some_result f vs)"

subsection \<open>The pipeline composer\<close>

definition pipeSystems ::
  "(world \<Rightarrow> real \<Rightarrow> error + world) list \<Rightarrow> world \<Rightarrow> real \<Rightarrow> error + world" where
  "pipeSystems systems world dt =
     fold (\<lambda>sys acc. and_then acc (\<lambda>w. sys w dt)) systems (Inr world)"

subsection \<open>Input and movement\<close>

definition setInput :: "input_state \<Rightarrow> string \<Rightarrow> bool \<Rightarrow> input_state" where
  "setInput state key isDown =
     (if key = ''ArrowLeft'' then state\<lparr>left := isDown\<rparr>
      else if key = ''ArrowRight'' then state\<lparr>right := isDown\<rparr>
      else state)"

definition inputSystem :: "input_state \<Rightarrow> world \<Rightarrow> real \<Rightarrow> world" where
  "inputSystem inputState w dt = w\<lparr>input := Some inputState\<rparr>"

text \<open>\<open>(world.input || {}).left\<close> and \<open>.right\<close> as conditions: a missing input object
  reads as two released keys.\<close>

definition input_left :: "input_state option \<Rightarrow> bool" where
  "input_left inp = (case inp of None \<Rightarrow> False | Some i \<Rightarrow> left i)"

definition input_right :: "input_state option \<Rightarrow> bool" where
  "input_right inp = (case inp of None \<Rightarrow> False | Some i \<Rightarrow> right i)"

text \<open>The local constant \<open>speed\<close> of \<open>movementSystem\<close>.\<close>

definition player_speed :: real where
  "player_speed = 350"

text \<open>The callback \<open>movementSystem\<close> maps over the entities.\<close>

definition move_entity ::
  "canvas \<Rightarrow> input_state option \<Rightarrow> real \<Rightarrow> entity \<Rightarrow> error + entity" where
  "move_entity cv inp dt e =
     (if entity_id e \<noteq> ''player'' then Inr e
      else case position (components e) of
        None \<Rightarrow> Inl TypeError
      | Some p \<Rightarrow>
          let dx = (if input_left inp then - player_speed else 0)
                 + (if input_right inp then player_speed else 0);
              newX = pos_x p + dx * dt;
              newX' = max 0 (min (canvas_width cv - PLAYER_SIZE) newX)
          in Inr (e\<lparr>components :=
                    (components e)\<lparr>position := Some \<lparr>pos_x = newX', pos_y = pos_y p\<rparr>\<rparr>\<rparr>))"

definition movementSystem :: "canvas \<Rightarrow> world \<Rightarrow> real \<Rightarrow> error + world" where
  "movementSystem cv w dt =
     and_then (map_result (move_entity cv (input w) dt) (entities w))
       (\<lambda>newEntities. Inr (w\<lparr>entities := newEntities\<rparr>))"

subsection \<open>Time, spawning, falling, difficulty\<close>

definition timeSystem :: "world \<Rightarrow> real \<Rightarrow> world" where
  "timeSystem w dt = w\<lparr>time := time w + dt\<rparr>"

definition createBlock :: "string \<Rightarrow> real \<Rightarrow> string \<Rightarrow> entity" where
  "createBlock bid bx k =
     \<lparr>entity_id = bid,
      components =
        \<lparr>position = Some \<lparr>pos_x = bx, pos_y = - BLOCK_SIZE\<rparr>,
         size_c = Some \<lparr>size_w = BLOCK_SIZE, size_h = BLOCK_SIZE\<rparr>,
         falling = Some \<lparr>baseSpeed = 160, speed = 160\<rparr>,
         tag = Some \<lparr>kind = k\<rparr>\<rparr>\<rparr>"

text \<open>The decimal text a template literal gives for an integer-valued number (below the
  magnitude where JavaScript switches to exponent notation).\<close>

fun string_of_nat :: "nat \<Rightarrow> string" where
  "string_of_nat n =
     (if n < 10 then [''0123456789'' ! n]
      else string_of_nat (n div 10) @ [''0123456789'' ! (n mod 10)])"

declare string_of_nat.simps [simp del]

definition string_of_int :: "int \<Rightarrow> string" where
  "string_of_int i =
     (if i < 0 then CHR ''-'' # string_of_nat (nat (- i)) else string_of_nat (nat i))"

text \<open>\<open>rnd_x\<close> and \<open>rnd_kind\<close> are the values of the two calls of \<open>Math.random()\<close>, in the
  order the source makes them.\<close>

definition spawnerSystem :: "canvas \<Rightarrow> real \<Rightarrow> real \<Rightarrow> world \<Rightarrow> real \<Rightarrow> world" where
  "spawnerSystem cv rnd_x rnd_kind w dt =
     (if time w - spawn_last (spawn w) < interval (spawn w) then w
      else
        let bx = rnd_x * (canvas_width cv - BLOCK_SIZE);
            k = (if rnd_kind < 0.7 then ''bad'' else ''good'');
            blockId = k @ ''_'' @ string_of_int \<lfloor>time w * 1000\<rfloor>;
            block = createBlock blockId bx k;
            newWorld = addEntity w block
        in newWorld\<lparr>spawn := (spawn w)\<lparr>spawn_last := time w\<rparr>\<rparr>)"

definition fall_entity :: "real \<Rightarrow> entity \<Rightarrow> entity" where
  "fall_entity dt e =
     (case falling (components e) of
        None \<Rightarrow> e
      | Some f \<Rightarrow>
          (case position (components e) of
             None \<Rightarrow> e
           | Some p \<Rightarrow>
               e\<lparr>components :=
                   (components e)\<lparr>position :=
                      Some \<lparr>pos_x = pos_x p, pos_y = pos_y p + speed f * dt\<rparr>\<rparr>\<rparr>))"

definition fallingSystem :: "world \<Rightarrow> real \<Rightarrow> world" where
  "fallingSystem w dt = w\<lparr>entities := map (fall_entity dt) (entities w)\<rparr>"

text \<open>The callback of \<open>difficultySystem\<close>, given the speed multiplier.\<close>

definition rescale_entity :: "real \<Rightarrow> entity \<Rightarrow> entity" where
  "rescale_entity speedMult e =
     (case falling (components e) of
        None \<Rightarrow> e
      | Some f \<Rightarrow>
          e\<lparr>components :=
              (components e)\<lparr>falling := Some (f\<lparr>speed := baseSpeed f * speedMult\<rparr>)\<rparr>\<rparr>)"

text \<open>\<open>level\<close> is the integer \<open>Math.floor\<close> returns, so \<open>Math.pow\<close> is an integer power.
  With \<open>step = 0\<close>, or with \<open>factor = 0\<close> at a negative level, JavaScript computes with an
  infinity or with \<open>NaN\<close>, which the reals do not have; the values of the model are those
  of the source for \<open>step \<noteq> 0\<close> and \<open>factor \<noteq> 0\<close>.\<close>

definition difficultySystem :: "world \<Rightarrow> real \<Rightarrow> world" where
  "difficultySystem w dt =
     (let level = \<lfloor>time w / step (difficulty w)\<rfloor>;
          speedMult = factor (difficulty w) powi level;
          intervalMult = (1 / factor (difficulty w)) powi level;
          newEntities = map (rescale_entity speedMult) (entities w);
          rawInterval = baseInterval (spawn w) * intervalMult;
          newInterval = max rawInterval (minInterval (spawn w))
      in w\<lparr>entities := newEntities, spawn := (spawn w)\<lparr>interval := newInterval\<rparr>\<rparr>)"

subsection \<open>Collision geometry\<close>

record margins =
  m_left :: real
  m_right :: real
  m_top :: real
  m_bottom :: real

record rect =
  rect_x :: real
  rect_y :: real
  rect_w :: real
  rect_h :: real

text \<open>The position and the size arrive as they are read from \<open>e.components\<close>, present or
  not; \<open>p.x\<close> is the first property read.\<close>

definition hitboxWithMargins ::
  "position_comp option \<Rightarrow> size_comp option \<Rightarrow> margins \<Rightarrow> error + rect" where
  "hitboxWithMargins p s m =
     (case p of
        None \<Rightarrow> Inl TypeError
      | Some p' \<Rightarrow>
          (case s of
             None \<Rightarrow> Inl TypeError
           | Some s' \<Rightarrow>
               Inr \<lparr>rect_x = pos_x p' + size_w s' * m_left m,
                    rect_y = pos_y p' + size_h s' * m_top m,
                    rect_w = size_w s' * (1 - m_left m - m_right m),
                    rect_h = size_h s' * (1 - m_top m - m_bottom m)\<rparr>))"

definition PLAYER_MARGINS :: margins where
  "PLAYER_MARGINS = \<lparr>m_left = 0.15, m_right = 0.40, m_top = 0.08, m_bottom = 0.06\<rparr>"

definition GOOD_MARGINS :: margins where
  "GOOD_MARGINS = \<lparr>m_left = 0.14, m_right = 0.14, m_top = 0.08, m_bottom = 0.18\<rparr>"

definition BAD_MARGINS :: margins where
  "BAD_MARGINS = \<lparr>m_left = 0.08, m_right = 0.08, m_top = 0.08, m_bottom = 0.07\<rparr>"

definition rectsOverlap :: "rect \<Rightarrow> rect \<Rightarrow> bool" where
  "rectsOverlap a b \<longleftrightarrow>
     rect_x a < rect_x b + rect_w b \<and>
     rect_x a + rect_w a > rect_x b \<and>
     rect_y a < rect_y b + rect_h b \<and>
     rect_y a + rect_h a > rect_y b"

subsection \<open>Collision and cleanup\<close>

text \<open>The callback of the \<open>filter\<close> in \<open>collisionSystem\<close>. It updates the captured counter
  \<open>earned\<close>, so the counter goes in and comes out with the answer.\<close>

definition pickup_step :: "rect \<Rightarrow> entity \<Rightarrow> int \<Rightarrow> error + (bool \<times> int)" where
  "pickup_step playerRect e earned =
     (case tag (components e) of
        None \<Rightarrow> Inr (True, earned)
      | Some t \<Rightarrow>
          let mg = (if kind t = ''good'' then GOOD_MARGINS else BAD_MARGINS)
          in and_then (hitboxWithMargins (position (components e)) (size_c (components e)) mg)
               (\<lambda>blockRect.
                  if \<not> rectsOverlap playerRect blockRect then Inr (True, earned)
                  else if kind t = ''good'' then Inr (False, earned + 1)
                  else Inr (True, earned)))"

fun filter_earned :: "rect \<Rightarrow> entity list \<Rightarrow> int \<Rightarrow> error + (entity list \<times> int)" where
  "filter_earned playerRect [] earned = Inr ([], earned)"
| "filter_earned playerRect (e # es) earned =
     and_then (pickup_step playerRect e earned)
       (\<lambda>(keep, earned').
          and_then (filter_earned playerRect es earned')
            (\<lambda>(kept, earned''). Inr (if keep then e # kept else kept, earned'')))"

text \<open>The callback of the \<open>some\<close> in \<open>collisionSystem\<close>.\<close>

definition bad_hit :: "rect \<Rightarrow> entity \<Rightarrow> error + bool" where
  "bad_hit playerRect e =
     (case tag (components e) of
        None \<Rightarrow> Inr False
      | Some t \<Rightarrow>
          if kind t \<noteq> ''bad'' then Inr False
          else and_then
                 (hitboxWithMargins (position (components e)) (size_c (components e))
                    BAD_MARGINS)
                 (\<lambda>blockRect. Inr (rectsOverlap playerRect blockRect)))"

definition collisionSystem :: "world \<Rightarrow> real \<Rightarrow> error + world" where
  "collisionSystem w dt =
     (if over (game w) then Inr w
      else case find (\<lambda>e. entity_id e = ''player'') (entities w) of
        None \<Rightarrow> Inr w
      | Some pl \<Rightarrow>
          and_then
            (hitboxWithMargins (position (components pl)) (size_c (components pl))
               PLAYER_MARGINS)
            (\<lambda>playerRect.
               and_then (filter_earned playerRect (entities w) 0)
                 (\<lambda>(newEntities, earned).
                    and_then (some_result (bad_hit playerRect) (entities w))
                      (\<lambda>hitBad.
                         Inr (w\<lparr>entities := newEntities,
                                score := score w + earned,
                                game := \<lparr>over = hitBad\<rparr>\<rparr>)))))"

text \<open>The callback of the \<open>filter\<close> in \<open>cleanupSystem\<close>: \<open>p.y\<close> and \<open>s.h\<close> are read only
  for a tagged entity.\<close>

definition on_screen :: "canvas \<Rightarrow> entity \<Rightarrow> error + bool" where
  "on_screen cv e =
     (case tag (components e) of
        None \<Rightarrow> Inr True
      | Some t \<Rightarrow>
          (case position (components e) of
             None \<Rightarrow> Inl TypeError
           | Some p \<Rightarrow>
               (case size_c (components e) of
                  None \<Rightarrow> Inl TypeError
                | Some s \<Rightarrow> Inr (pos_y p < canvas_height cv + size_h s))))"

definition cleanupSystem :: "canvas \<Rightarrow> world \<Rightarrow> real \<Rightarrow> error + world" where
  "cleanupSystem cv w dt =
     and_then (filter_result (on_screen cv) (entities w))
       (\<lambda>newEntities. Inr (w\<lparr>entities := newEntities\<rparr>))"

subsection \<open>One frame\<close>

text \<open>What a frame reads from outside the world.\<close>

record frame =
  frame_canvas :: canvas
  inputState :: input_state
  random_x :: real
  random_kind :: real

definition update :: "frame \<Rightarrow> world \<Rightarrow> real \<Rightarrow> error + world" where
  "update fr =
     pipeSystems
       [\<lambda>w dt. Inr (timeSystem w dt),
        \<lambda>w dt. Inr (inputSystem (inputState fr) w dt),
        movementSystem (frame_canvas fr),
        \<lambda>w dt. Inr (spawnerSystem (frame_canvas fr) (random_x fr) (random_kind fr) w dt),
        \<lambda>w dt. Inr (fallingSystem w dt),
        \<lambda>w dt. Inr (difficultySystem w dt),
        collisionSystem,
        cleanupSystem (frame_canvas fr)]"

section \<open>Notions the properties are stated with\<close>

text \<open>A tagged entity is read by the collision and cleanup systems through its position
  and its size, and so is the player by the movement and collision systems. The factories
  \<open>player\<close> and \<open>createBlock\<close> always attach both components.\<close>

definition blocks_have_geometry :: "world \<Rightarrow> bool" where
  "blocks_have_geometry w \<longleftrightarrow>
     (\<forall>e\<in>set (entities w). tag (components e) \<noteq> None \<longrightarrow>
        position (components e) \<noteq> None \<and> size_c (components e) \<noteq> None)"

definition players_have_geometry :: "world \<Rightarrow> bool" where
  "players_have_geometry w \<longleftrightarrow>
     (\<forall>e\<in>set (entities w). entity_id e = ''player'' \<longrightarrow>
        position (components e) \<noteq> None \<and> size_c (components e) \<noteq> None)"

definition players_untagged :: "world \<Rightarrow> bool" where
  "players_untagged w \<longleftrightarrow>
     (\<forall>e\<in>set (entities w). entity_id e = ''player'' \<longrightarrow> tag (components e) = None)"

definition player_count :: "world \<Rightarrow> nat" where
  "player_count w = length (filter (\<lambda>e. entity_id e = ''player'') (entities w))"

definition tagged_as :: "string \<Rightarrow> entity \<Rightarrow> bool" where
  "tagged_as k e = (case tag (components e) of None \<Rightarrow> False | Some t \<Rightarrow> kind t = k)"

text \<open>The hit-rectangle of \<open>e\<close> under the margins \<open>m\<close> overlaps \<open>playerRect\<close>.\<close>

definition overlaps_player :: "rect \<Rightarrow> margins \<Rightarrow> entity \<Rightarrow> bool" where
  "overlaps_player playerRect m e =
     (case hitboxWithMargins (position (components e)) (size_c (components e)) m of
        Inl err \<Rightarrow> False
      | Inr blockRect \<Rightarrow> rectsOverlap playerRect blockRect)"

definition good_overlap :: "rect \<Rightarrow> entity \<Rightarrow> bool" where
  "good_overlap playerRect e \<longleftrightarrow>
     tagged_as ''good'' e \<and> overlaps_player playerRect GOOD_MARGINS e"

definition bad_overlap :: "rect \<Rightarrow> entity \<Rightarrow> bool" where
  "bad_overlap playerRect e \<longleftrightarrow>
     tagged_as ''bad'' e \<and> overlaps_player playerRect BAD_MARGINS e"

text \<open>The relation between an entity and its image under the systems that map over the
  entity list: identity, tag and size stay, and a position stays a position.\<close>

definition same_shape :: "entity \<Rightarrow> entity \<Rightarrow> bool" where
  "same_shape e e' \<longleftrightarrow>
     entity_id e' = entity_id e \<and>
     tag (components e') = tag (components e) \<and>
     size_c (components e') = size_c (components e) \<and>
     (position (components e') = None \<longleftrightarrow> position (components e) = None)"

subsection \<open>Sequences of frames\<close>

text \<open>A sequence of pipeline passes, each with its own readings and its own \<open>dt\<close>, as the
  animation loop makes them; an exception ends the sequence. The loop of the game requests
  no further frame once a world is over; the sequences here may go on.\<close>

fun run_frames :: "(frame \<times> real) list \<Rightarrow> world \<Rightarrow> error + world" where
  "run_frames [] w = Inr w"
| "run_frames ((fr, dt) # rest) w = and_then (update fr w dt) (run_frames rest)"

subsection \<open>Sample worlds\<close>

definition demo_canvas :: canvas where
  "demo_canvas = \<lparr>canvas_width = 800, canvas_height = 600\<rparr>"

definition narrow_canvas :: canvas where
  "narrow_canvas = \<lparr>canvas_width = 100, canvas_height = 600\<rparr>"

definition demo_block :: "string \<Rightarrow> real \<Rightarrow> real \<Rightarrow> string \<Rightarrow> entity" where
  "demo_block bid x0 y0 k =
     \<lparr>entity_id = bid,
      components =
        \<lparr>position = Some \<lparr>pos_x = x0, pos_y = y0\<rparr>,
         size_c = Some \<lparr>size_w = 70, size_h = 70\<rparr>,
         falling = Some \<lparr>baseSpeed = 160, speed = 160\<rparr>,
         tag = Some \<lparr>kind = k\<rparr>\<rparr>\<rparr>"

text \<open>The initial world one second into the game: the spawn interval has passed.\<close>

definition late_world :: world where
  "late_world = (initial_world demo_canvas)\<lparr>time := 1\<rparr>"

text \<open>One block on the removal boundary \<open>y = 600 + 70\<close>, one a pixel above it.\<close>

definition boundary_world :: world where
  "boundary_world =
     (initial_world demo_canvas)
       \<lparr>entities := [player demo_canvas,
                     demo_block ''bad_1'' 100 670 ''bad'',
                     demo_block ''good_2'' 100 669 ''good'']\<rparr>"

text \<open>The player of the 800 x 600 canvas stands at \<open>(325, 430)\<close>; its hit-rectangle is
  \<open>x = 347.5, y = 442, w = 67.5, h = 129\<close>. A good block at \<open>(340, 400)\<close> and a bad block at
  \<open>(350, 420)\<close> both reach into it; a good block at \<open>(0, 0)\<close> does not.\<close>

definition demo_rect :: rect where
  "demo_rect = \<lparr>rect_x = 695/2, rect_y = 442, rect_w = 135/2, rect_h = 129\<rparr>"

definition pickup_world :: world where
  "pickup_world =
     (initial_world demo_canvas)
       \<lparr>entities := [player demo_canvas,
                     demo_block ''good_1'' 340 400 ''good'',
                     demo_block ''good_2'' 0 0 ''good''],
        score := 3\<rparr>"

definition crash_world :: world where
  "crash_world =
     (initial_world demo_canvas)
       \<lparr>entities := [player demo_canvas,
                     demo_block ''good_1'' 340 400 ''good'',
                     demo_block ''bad_2'' 350 420 ''bad''],
        score := 3\<rparr>"

text \<open>A world without a player, and a world whose block has lost its position.\<close>

definition broken_world :: world where
  "broken_world =
     (initial_world demo_canvas)
       \<lparr>entities :=
          [player demo_canvas,
           (demo_block ''bad_2'' 350 420 ''bad'')
             \<lparr>components := (components (demo_block ''bad_2'' 350 420 ''bad''))
                \<lparr>position := None\<rparr>\<rparr>]\<rparr>"


definition empty_stage :: world where
  "empty_stage =
     createWorld\<lparr>entities := [demo_block ''bad_2'' 350 420 ''bad''],
                 input := Some \<lparr>left = True, right = False\<rparr>\<rparr>"

text \<open>The velocity as the specification words it: \<open>-350\<close> when only left is held, \<open>+350\<close>
  when only right is held, \<open>0\<close> when both or neither are.\<close>

definition spec_velocity :: "bool \<Rightarrow> bool \<Rightarrow> real" where
  "spec_velocity l r = (if l \<and> \<not> r then - 350 else if r \<and> \<not> l then 350 else 0)"

text \<open>What the movement callback makes of an entity when it does not throw.\<close>

definition shifted :: "canvas \<Rightarrow> input_state option \<Rightarrow> real \<Rightarrow> entity \<Rightarrow> entity" where
  "shifted cv inp dt e = (case move_entity cv inp dt e of Inl err \<Rightarrow> e | Inr e' \<Rightarrow> e')"

text \<open>The initial world of a window 100 pixels wide, with the right key held: the player
  starts at \<open>x = 100 / 2 - 75 = -25\<close>.\<close>

definition narrow_world :: world where
  "narrow_world = (initial_world narrow_canvas)\<lparr>input := Some \<lparr>left = False, right = True\<rparr>\<rparr>"

text \<open>The initial world of the 800 x 600 canvas with the left key held, and a block.\<close>

definition walking_world :: world where
  "walking_world =
     (initial_world demo_canvas)
       \<lparr>entities := [player demo_canvas, demo_block ''bad_2'' 350 420 ''bad''],
        input := Some \<lparr>left = True, right = False\<rparr>\<rparr>"

text \<open>The shape of the worlds the game builds: one player, untagged, and a position and a
  size on the player and on every tagged entity.\<close>

definition well_formed :: "world \<Rightarrow> bool" where
  "well_formed w \<longleftrightarrow>
     player_count w = 1 \<and> players_untagged w \<and>
     players_have_geometry w \<and> blocks_have_geometry w"

text \<open>Two frames of 16 ms on the 800 x 600 canvas, the first with the left key held.\<close>

definition demo_frame_1 :: "frame \<times> real" where
  "demo_frame_1 =
     (\<lparr>frame_canvas = demo_canvas, inputState = \<lparr>left = True, right = False\<rparr>,
       random_x = 1/2, random_kind = 9/10\<rparr>, 2/125)"

definition demo_frame_2 :: "frame \<times> real" where
  "demo_frame_2 =
     (\<lparr>frame_canvas = demo_canvas, inputState = \<lparr>left = False, right = False\<rparr>,
       random_x = 1/4, random_kind = 1/10\<rparr>, 2/125)"

definition demo_frames :: "(frame \<times> real) list" where
  "demo_frames = [demo_frame_1, demo_frame_2]"

section \<open>Exceptions as values: basic facts\<close>

lemma and_then_Inl [simp]: "and_then (Inl err) f = Inl err"
  by (simp add: and_then_def)

lemma and_then_Inr [simp]: "and_then (Inr v) f = f v"
  by (simp add: and_then_def)

lemma and_then_eq_Inr: "and_then r f = Inr y \<longleftrightarrow> (\<exists>v. r = Inr v \<and> f v = Inr y)"
  by (cases r) simp_all

lemma map_result_all2:
  "map_result f xs = Inr ys \<longleftrightarrow> list_all2 (\<lambda>x y. f x = Inr y) xs ys"
proof (induction xs arbitrary: ys)
  case Nil
  show ?case by auto
next
  case (Cons x xs)
  show ?case
    by (cases ys) (auto simp: and_then_eq_Inr Cons.IH)
qed

lemma all2_source:
  "list_all2 P xs ys \<Longrightarrow> y \<in> set ys \<Longrightarrow> \<exists>x\<in>set xs. P x y"
  by (induction rule: list_all2_induct) auto

lemma map_result_map:
  "(\<And>x. x \<in> set xs \<Longrightarrow> f x = Inr (g x)) \<Longrightarrow> map_result f xs = Inr (map g xs)"
  by (induction xs) simp_all

lemma filter_result_filter:
  "(\<And>x. x \<in> set xs \<Longrightarrow> f x = Inr (P x)) \<Longrightarrow> filter_result f xs = Inr (filter P xs)"
  by (induction xs) simp_all

lemma all2_target:
  "list_all2 P xs ys \<Longrightarrow> x \<in> set xs \<Longrightarrow> \<exists>y\<in>set ys. P x y"
  by (induction rule: list_all2_induct) auto

lemma filter_result_answers:
  "filter_result f xs = Inr ys \<Longrightarrow> x \<in> set xs \<Longrightarrow> \<exists>b. f x = Inr b"
proof (induction xs arbitrary: ys)
  case Nil
  then show ?case by simp
next
  case (Cons v vs)
  then show ?case by (auto simp: and_then_eq_Inr)
qed

lemma some_result_ex:
  "(\<And>x. x \<in> set xs \<Longrightarrow> f x = Inr (P x)) \<Longrightarrow> some_result f xs = Inr (\<exists>x\<in>set xs. P x)"
  by (induction xs) simp_all

section \<open>The spawner\<close>

text \<open>
  Claim C3. While \<open>world.time - spawn.last < spawn.interval\<close> the spawner returns the world
  it was given. Otherwise it returns the world with exactly one more entity, appended at the
  end, and with \<open>spawn.last = world.time\<close>; the new entity starts at \<open>y = -BLOCK_SIZE\<close>, falls
  with \<open>speed = baseSpeed = 160\<close> and is tagged \<open>good\<close> or \<open>bad\<close>. This holds for every
  canvas and for every pair of values \<open>Math.random()\<close> returns.
\<close>

theorem spawner_gate:
  "(time w - spawn_last (spawn w) < interval (spawn w) \<longrightarrow>
      spawnerSystem cv rx rk w dt = w) \<and>
   (interval (spawn w) \<le> time w - spawn_last (spawn w) \<longrightarrow>
      (\<exists>b. spawnerSystem cv rx rk w dt =
              w\<lparr>entities := entities w @ [b], spawn := (spawn w)\<lparr>spawn_last := time w\<rparr>\<rparr> \<and>
           length (entities (spawnerSystem cv rx rk w dt)) = length (entities w) + 1 \<and>
           spawn_last (spawn (spawnerSystem cv rx rk w dt)) = time w \<and>
           position (components b) =
             Some \<lparr>pos_x = rx * (canvas_width cv - BLOCK_SIZE), pos_y = - BLOCK_SIZE\<rparr> \<and>
           falling (components b) = Some \<lparr>baseSpeed = 160, speed = 160\<rparr> \<and>
           (tag (components b) = Some \<lparr>kind = ''good''\<rparr> \<or>
            tag (components b) = Some \<lparr>kind = ''bad''\<rparr>)))"
proof -
  define k :: string where "k = (if rk < 0.7 then ''bad'' else ''good'')"
  define b where
    "b = createBlock (k @ ''_'' @ string_of_int \<lfloor>time w * 1000\<rfloor>)
           (rx * (canvas_width cv - BLOCK_SIZE)) k"
  have spawned: "spawnerSystem cv rx rk w dt =
      w\<lparr>entities := entities w @ [b], spawn := (spawn w)\<lparr>spawn_last := time w\<rparr>\<rparr>"
    if "interval (spawn w) \<le> time w - spawn_last (spawn w)"
    using that by (simp add: spawnerSystem_def Let_def addEntity_def b_def k_def)
  have block: "position (components b) =
        Some \<lparr>pos_x = rx * (canvas_width cv - BLOCK_SIZE), pos_y = - BLOCK_SIZE\<rparr> \<and>
      falling (components b) = Some \<lparr>baseSpeed = 160, speed = 160\<rparr> \<and>
      (tag (components b) = Some \<lparr>kind = ''good''\<rparr> \<or>
       tag (components b) = Some \<lparr>kind = ''bad''\<rparr>)"
    by (simp add: b_def createBlock_def k_def)
  have gate: "time w - spawn_last (spawn w) < interval (spawn w) \<longrightarrow>
      spawnerSystem cv rx rk w dt = w"
    by (simp add: spawnerSystem_def)
  show ?thesis
    using gate spawned block by (intro conjI impI exI [of _ b]) simp_all
qed

text \<open>At time 0 the initial world is returned as it is; one second later, with the
  draws 0.5 and 0.9, the block \<open>good_1000\<close> is appended at \<open>x = 365\<close>.\<close>

theorem spawner_gate_witness:
  "time (initial_world demo_canvas) - spawn_last (spawn (initial_world demo_canvas))
     < interval (spawn (initial_world demo_canvas)) \<and>
   spawnerSystem demo_canvas (1/2) (9/10) (initial_world demo_canvas) (2/125)
     = initial_world demo_canvas \<and>
   interval (spawn late_world) \<le> time late_world - spawn_last (spawn late_world) \<and>
   spawnerSystem demo_canvas (1/2) (9/10) late_world (2/125) =
     late_world\<lparr>entities := [player demo_canvas, demo_block ''good_1000'' 365 (- 70) ''good''],
                spawn := (spawn late_world)\<lparr>spawn_last := 1\<rparr>\<rparr>"
  using spawner_gate [of "initial_world demo_canvas" demo_canvas "1/2" "9/10" "2/125"]
    spawner_gate [of late_world demo_canvas "1/2" "9/10" "2/125"]
  by (simp add: spawnerSystem_def Let_def late_world_def initial_world_def createWorld_def
      addEntity_def demo_canvas_def createBlock_def demo_block_def BLOCK_SIZE_def
      string_of_int_def string_of_nat.simps)

section \<open>Difficulty\<close>

text \<open>
  Claim C5. The difficulty system is idempotent: applied to its own result (with any
  \<open>dt\<close>; the time is not changed by this system) it returns that result again. Every
  falling component gets \<open>speed = baseSpeed * factor ^ level\<close> and the spawn interval becomes
  \<open>max (baseInterval * (1 / factor) ^ level) minInterval\<close>, with
  \<open>level = floor (time / step)\<close>: both are computed from the base values, which the system
  leaves alone.
\<close>

theorem difficulty_idempotent:
  "difficultySystem (difficultySystem w dt) dt' = difficultySystem w dt \<and>
   interval (spawn (difficultySystem w dt)) =
     max (baseInterval (spawn w) *
            (1 / factor (difficulty w)) powi \<lfloor>time w / step (difficulty w)\<rfloor>)
         (minInterval (spawn w)) \<and>
   map (\<lambda>e. falling (components e)) (entities (difficultySystem w dt)) =
     map (\<lambda>e. map_option
                 (\<lambda>f. f\<lparr>speed := baseSpeed f *
                          factor (difficulty w) powi \<lfloor>time w / step (difficulty w)\<rfloor>\<rparr>)
                 (falling (components e)))
         (entities w)"
proof -
  have twice: "rescale_entity m (rescale_entity m e) = rescale_entity m e" for m e
    by (simp add: rescale_entity_def split: option.splits)
  have fall: "falling (components (rescale_entity m e)) =
      map_option (\<lambda>f. f\<lparr>speed := baseSpeed f * m\<rparr>) (falling (components e))" for m e
    by (simp add: rescale_entity_def split: option.splits)
  show ?thesis
    by (simp add: difficultySystem_def Let_def twice fall o_def)
qed

section \<open>Cleanup\<close>

lemma on_screen_total:
  assumes "tag (components e) \<noteq> None \<longrightarrow>
           position (components e) \<noteq> None \<and> size_c (components e) \<noteq> None"
  shows "on_screen cv e =
         Inr (tag (components e) = None \<or>
              (\<exists>p s. position (components e) = Some p \<and> size_c (components e) = Some s \<and>
                     pos_y p < canvas_height cv + size_h s))"
  using assms by (auto simp: on_screen_def split: option.splits)

lemma cleanupSystem_total:
  assumes "blocks_have_geometry w"
  shows "cleanupSystem cv w dt =
         Inr (w\<lparr>entities :=
                  filter (\<lambda>e. tag (components e) = None \<or>
                            (\<exists>p s. position (components e) = Some p \<and>
                                   size_c (components e) = Some s \<and>
                                   pos_y p < canvas_height cv + size_h s))
                    (entities w)\<rparr>)"
proof -
  have "filter_result (on_screen cv) (entities w) =
      Inr (filter (\<lambda>e. tag (components e) = None \<or>
                     (\<exists>p s. position (components e) = Some p \<and>
                            size_c (components e) = Some s \<and>
                            pos_y p < canvas_height cv + size_h s))
             (entities w))"
    using assms by (intro filter_result_filter on_screen_total) (simp add: blocks_have_geometry_def)
  then show ?thesis by (simp add: cleanupSystem_def)
qed

text \<open>
  Claim C8. In a world whose tagged entities carry a position and a size, the cleanup
  system returns the world with a sublist of its entities and nothing else changed. An
  untagged entity is always kept. A tagged entity at \<open>(x, y)\<close> of height \<open>h\<close> is absent from
  the result exactly when \<open>y \<ge> canvas.height + h\<close>.
\<close>

theorem cleanup_boundary:
  assumes "blocks_have_geometry w"
  shows "\<exists>w'. cleanupSystem cv w dt = Inr w' \<and>
           w' = w\<lparr>entities := entities w'\<rparr> \<and>
           set (entities w') \<subseteq> set (entities w) \<and>
           (\<forall>e\<in>set (entities w).
              (tag (components e) = None \<longrightarrow> e \<in> set (entities w')) \<and>
              (\<forall>t p s. tag (components e) = Some t \<and> position (components e) = Some p \<and>
                        size_c (components e) = Some s \<longrightarrow>
                 (e \<notin> set (entities w') \<longleftrightarrow> canvas_height cv + size_h s \<le> pos_y p)))"
proof -
  let ?P = "\<lambda>e. tag (components e) = None \<or>
              (\<exists>p s. position (components e) = Some p \<and> size_c (components e) = Some s \<and>
                     pos_y p < canvas_height cv + size_h s)"
  have "cleanupSystem cv w dt = Inr (w\<lparr>entities := filter ?P (entities w)\<rparr>)"
    using assms by (rule cleanupSystem_total)
  then show ?thesis by auto
qed

text \<open>On a canvas 600 high, the block of height 70 at \<open>y = 670\<close> goes and the one at
  \<open>y = 669\<close> stays, as does the player.\<close>

theorem cleanup_boundary_witness:
  "blocks_have_geometry boundary_world \<and>
   cleanupSystem demo_canvas boundary_world (2/125) =
     Inr (boundary_world\<lparr>entities := [player demo_canvas,
                                      demo_block ''good_2'' 100 669 ''good'']\<rparr>)"
proof -
  have geo: "blocks_have_geometry boundary_world"
    by (simp add: blocks_have_geometry_def boundary_world_def demo_block_def player_def)
  from cleanup_boundary [OF geo, of demo_canvas "2/125"] show ?thesis
    using geo
    by (simp add: cleanupSystem_def on_screen_def boundary_world_def demo_block_def
        player_def demo_canvas_def)
qed

section \<open>Collision\<close>

lemma pickup_step_total:
  assumes "tag (components e) \<noteq> None \<longrightarrow>
           position (components e) \<noteq> None \<and> size_c (components e) \<noteq> None"
  shows "pickup_step pr e n =
         Inr (\<not> good_overlap pr e, if good_overlap pr e then n + 1 else n)"
  using assms
  by (auto simp: pickup_step_def good_overlap_def tagged_as_def overlaps_player_def
      hitboxWithMargins_def Let_def split: option.splits)

lemma filter_earned_total:
  assumes "\<forall>e\<in>set es. tag (components e) \<noteq> None \<longrightarrow>
             position (components e) \<noteq> None \<and> size_c (components e) \<noteq> None"
  shows "filter_earned pr es n =
         Inr (filter (\<lambda>e. \<not> good_overlap pr e) es,
              n + int (length (filter (good_overlap pr) es)))"
  using assms
proof (induction es arbitrary: n)
  case Nil
  show ?case by simp
next
  case (Cons e es)
  have step: "pickup_step pr e n =
      Inr (\<not> good_overlap pr e, if good_overlap pr e then n + 1 else n)"
    using Cons.prems by (intro pickup_step_total) simp
  have rest: "filter_earned pr es m =
      Inr (filter (\<lambda>e. \<not> good_overlap pr e) es,
           m + int (length (filter (good_overlap pr) es)))" for m
    using Cons.prems by (intro Cons.IH) simp
  show ?case by (simp add: step rest)
qed

lemma bad_hit_total:
  assumes "tag (components e) \<noteq> None \<longrightarrow>
           position (components e) \<noteq> None \<and> size_c (components e) \<noteq> None"
  shows "bad_hit pr e = Inr (bad_overlap pr e)"
  using assms
  by (auto simp: bad_hit_def bad_overlap_def tagged_as_def overlaps_player_def
      hitboxWithMargins_def split: option.splits)

lemma collisionSystem_total:
  assumes live: "\<not> over (game w)"
    and pl: "find (\<lambda>e. entity_id e = ''player'') (entities w) = Some pl"
    and box: "hitboxWithMargins (position (components pl)) (size_c (components pl))
                PLAYER_MARGINS = Inr pr"
    and geo: "blocks_have_geometry w"
  shows "collisionSystem w dt =
         Inr (w\<lparr>entities := filter (\<lambda>e. \<not> good_overlap pr e) (entities w),
                score := score w + int (length (filter (good_overlap pr) (entities w))),
                game := \<lparr>over = (\<exists>e\<in>set (entities w). bad_overlap pr e)\<rparr>\<rparr>)"
proof -
  have all: "\<forall>e\<in>set (entities w). tag (components e) \<noteq> None \<longrightarrow>
      position (components e) \<noteq> None \<and> size_c (components e) \<noteq> None"
    using geo by (simp add: blocks_have_geometry_def)
  have kept: "filter_earned pr (entities w) 0 =
      Inr (filter (\<lambda>e. \<not> good_overlap pr e) (entities w),
           0 + int (length (filter (good_overlap pr) (entities w))))"
    using all by (rule filter_earned_total)
  have bad: "some_result (bad_hit pr) (entities w) =
      Inr (\<exists>e\<in>set (entities w). bad_overlap pr e)"
    using all by (intro some_result_ex bad_hit_total) simp
  show ?thesis
    using live by (simp add: collisionSystem_def pl box kept bad)
qed

lemma overlap_needs_tag:
  "good_overlap pr e \<Longrightarrow> tag (components e) \<noteq> None"
  by (auto simp: good_overlap_def tagged_as_def split: option.splits)

text \<open>
  Claim C1. Take a world that is not over, whose first entity with id \<open>player\<close> has the
  hit-rectangle \<open>playerRect\<close> (so it has a position and a size), and whose tagged entities
  all carry a position and a size. One call of the collision system returns a world from
  which every good block overlapping \<open>playerRect\<close> is gone, in which every other entity
  stays in its place, and whose score has grown by the number of good blocks that overlap.
\<close>

theorem collision_pickup:
  assumes "\<not> over (game w)"
    and "find (\<lambda>e. entity_id e = ''player'') (entities w) = Some pl"
    and "hitboxWithMargins (position (components pl)) (size_c (components pl))
           PLAYER_MARGINS = Inr playerRect"
    and "blocks_have_geometry w"
  shows "\<exists>w'. collisionSystem w dt = Inr w' \<and>
           (\<forall>e\<in>set (entities w). good_overlap playerRect e \<longrightarrow> e \<notin> set (entities w')) \<and>
           entities w' = filter (\<lambda>e. \<not> good_overlap playerRect e) (entities w) \<and>
           score w' = score w + int (length (filter (good_overlap playerRect) (entities w)))"
  using collisionSystem_total [OF assms, of dt] by simp

text \<open>The player picks up \<open>good_1\<close> and leaves \<open>good_2\<close>: the score goes from 3 to 4.\<close>

theorem collision_pickup_witness:
  "\<not> over (game pickup_world) \<and>
   find (\<lambda>e. entity_id e = ''player'') (entities pickup_world) = Some (player demo_canvas) \<and>
   hitboxWithMargins (position (components (player demo_canvas)))
     (size_c (components (player demo_canvas))) PLAYER_MARGINS = Inr demo_rect \<and>
   blocks_have_geometry pickup_world \<and>
   good_overlap demo_rect (demo_block ''good_1'' 340 400 ''good'') \<and>
   collisionSystem pickup_world (2/125) =
     Inr (pickup_world\<lparr>entities := [player demo_canvas, demo_block ''good_2'' 0 0 ''good''],
                       score := 4\<rparr>)"
proof -
  have live: "\<not> over (game pickup_world)"
    by (simp add: pickup_world_def initial_world_def createWorld_def addEntity_def)
  have pl: "find (\<lambda>e. entity_id e = ''player'') (entities pickup_world)
      = Some (player demo_canvas)"
    by (simp add: pickup_world_def player_def)
  have box: "hitboxWithMargins (position (components (player demo_canvas)))
      (size_c (components (player demo_canvas))) PLAYER_MARGINS = Inr demo_rect"
    by (simp add: hitboxWithMargins_def player_def demo_canvas_def PLAYER_MARGINS_def
        PLAYER_SIZE_def demo_rect_def)
  have geo: "blocks_have_geometry pickup_world"
    by (simp add: blocks_have_geometry_def pickup_world_def demo_block_def player_def)
  have hit: "good_overlap demo_rect (demo_block ''good_1'' 340 400 ''good'')"
    by (simp add: good_overlap_def tagged_as_def overlaps_player_def hitboxWithMargins_def
        demo_block_def GOOD_MARGINS_def rectsOverlap_def demo_rect_def)
  have run: "collisionSystem pickup_world (2/125) =
      Inr (pickup_world\<lparr>entities := [player demo_canvas, demo_block ''good_2'' 0 0 ''good''],
                        score := 4\<rparr>)"
    by (simp add: collisionSystem_def pickup_world_def initial_world_def createWorld_def
        addEntity_def player_def demo_block_def demo_canvas_def hitboxWithMargins_def
        pickup_step_def bad_hit_def rectsOverlap_def PLAYER_MARGINS_def GOOD_MARGINS_def
        BAD_MARGINS_def PLAYER_SIZE_def Let_def)
  from collision_pickup [OF live pl box geo, of "2/125"] show ?thesis
    using live pl box geo hit run by simp
qed

lemma bad_not_picked: "tagged_as ''bad'' e \<Longrightarrow> \<not> good_overlap pr e"
  by (auto simp: good_overlap_def tagged_as_def split: option.splits)

text \<open>
  Claim C2. Take a world that is not over, whose first entity with id \<open>player\<close> has the
  hit-rectangle \<open>playerRect\<close>, whose tagged entities all carry a position and a size, and
  in which some bad block overlaps \<open>playerRect\<close>. One call of the collision system returns
  a world that is over and still holds every bad block, in the same order. The score of that
  same world has grown by the number of overlapping good blocks, so a good block
  overlapping in the same call is both scored and followed by the end of the game.
\<close>

theorem collision_game_over:
  assumes "\<not> over (game w)"
    and "find (\<lambda>e. entity_id e = ''player'') (entities w) = Some pl"
    and "hitboxWithMargins (position (components pl)) (size_c (components pl))
           PLAYER_MARGINS = Inr playerRect"
    and "blocks_have_geometry w"
    and "b \<in> set (entities w)" and "bad_overlap playerRect b"
  shows "\<exists>w'. collisionSystem w dt = Inr w' \<and>
           over (game w') \<and>
           (\<forall>e\<in>set (entities w). tagged_as ''bad'' e \<longrightarrow> e \<in> set (entities w')) \<and>
           filter (tagged_as ''bad'') (entities w') = filter (tagged_as ''bad'') (entities w) \<and>
           score w' = score w + int (length (filter (good_overlap playerRect) (entities w))) \<and>
           ((\<exists>g\<in>set (entities w). good_overlap playerRect g) \<longrightarrow>
              score w + 1 \<le> score w' \<and>
              (\<forall>g\<in>set (entities w). good_overlap playerRect g \<longrightarrow> g \<notin> set (entities w')))"
proof -
  let ?w' = "w\<lparr>entities := filter (\<lambda>e. \<not> good_overlap playerRect e) (entities w),
               score := score w + int (length (filter (good_overlap playerRect) (entities w))),
               game := \<lparr>over = (\<exists>e\<in>set (entities w). bad_overlap playerRect e)\<rparr>\<rparr>"
  have run: "collisionSystem w dt = Inr ?w'"
    using assms(1-4) by (rule collisionSystem_total)
  have ended: "over (game ?w')"
    using assms(5,6) by auto
  have stay: "\<forall>e\<in>set (entities w). tagged_as ''bad'' e \<longrightarrow> e \<in> set (entities ?w')"
    by (simp add: bad_not_picked)
  have same: "filter (tagged_as ''bad'') (entities ?w') = filter (tagged_as ''bad'') (entities w)"
    by (auto simp: bad_not_picked intro: filter_cong)
  have pts: "score w + 1 \<le> score ?w'"
    if "\<exists>g\<in>set (entities w). good_overlap playerRect g"
  proof -
    from that have "filter (good_overlap playerRect) (entities w) \<noteq> []"
      by (simp add: filter_empty_conv)
    then have "1 \<le> int (length (filter (good_overlap playerRect) (entities w)))"
      by (cases "filter (good_overlap playerRect) (entities w)") simp_all
    then show ?thesis by simp
  qed
  show ?thesis
    using run ended stay same pts by (intro exI [of _ ?w']) simp
qed

text \<open>The player touches \<open>good_1\<close> and \<open>bad_2\<close> in the same call: the score goes from 3
  to 4, \<open>good_1\<close> is removed, \<open>bad_2\<close> stays and the game is over.\<close>

theorem collision_game_over_witness:
  "\<not> over (game crash_world) \<and>
   find (\<lambda>e. entity_id e = ''player'') (entities crash_world) = Some (player demo_canvas) \<and>
   hitboxWithMargins (position (components (player demo_canvas)))
     (size_c (components (player demo_canvas))) PLAYER_MARGINS = Inr demo_rect \<and>
   blocks_have_geometry crash_world \<and>
   demo_block ''bad_2'' 350 420 ''bad'' \<in> set (entities crash_world) \<and>
   bad_overlap demo_rect (demo_block ''bad_2'' 350 420 ''bad'') \<and>
   good_overlap demo_rect (demo_block ''good_1'' 340 400 ''good'') \<and>
   collisionSystem crash_world (2/125) =
     Inr (crash_world\<lparr>entities := [player demo_canvas, demo_block ''bad_2'' 350 420 ''bad''],
                      score := 4, game := \<lparr>over = True\<rparr>\<rparr>)"
proof -
  have live: "\<not> over (game crash_world)"
    by (simp add: crash_world_def initial_world_def createWorld_def addEntity_def)
  have pl: "find (\<lambda>e. entity_id e = ''player'') (entities crash_world)
      = Some (player demo_canvas)"
    by (simp add: crash_world_def player_def)
  have box: "hitboxWithMargins (position (components (player demo_canvas)))
      (size_c (components (player demo_canvas))) PLAYER_MARGINS = Inr demo_rect"
    by (simp add: hitboxWithMargins_def player_def demo_canvas_def PLAYER_MARGINS_def
        PLAYER_SIZE_def demo_rect_def)
  have geo: "blocks_have_geometry crash_world"
    by (simp add: blocks_have_geometry_def crash_world_def demo_block_def player_def)
  have mem: "demo_block ''bad_2'' 350 420 ''bad'' \<in> set (entities crash_world)"
    by (simp add: crash_world_def)
  have bad: "bad_overlap demo_rect (demo_block ''bad_2'' 350 420 ''bad'')"
    by (simp add: bad_overlap_def tagged_as_def overlaps_player_def hitboxWithMargins_def
        demo_block_def BAD_MARGINS_def rectsOverlap_def demo_rect_def)
  have good: "good_overlap demo_rect (demo_block ''good_1'' 340 400 ''good'')"
    by (simp add: good_overlap_def tagged_as_def overlaps_player_def hitboxWithMargins_def
        demo_block_def GOOD_MARGINS_def rectsOverlap_def demo_rect_def)
  have run: "collisionSystem crash_world (2/125) =
      Inr (crash_world\<lparr>entities := [player demo_canvas, demo_block ''bad_2'' 350 420 ''bad''],
                       score := 4, game := \<lparr>over = True\<rparr>\<rparr>)"
    by (simp add: collisionSystem_def crash_world_def initial_world_def createWorld_def
        addEntity_def player_def demo_block_def demo_canvas_def hitboxWithMargins_def
        pickup_step_def bad_hit_def rectsOverlap_def PLAYER_MARGINS_def GOOD_MARGINS_def
        BAD_MARGINS_def PLAYER_SIZE_def Let_def)
  from collision_game_over [OF live pl box geo mem bad, of "2/125"] show ?thesis
    using live pl box geo mem bad good run by simp
qed

section \<open>Missing player, missing input\<close>

lemma move_entity_other: "entity_id e \<noteq> ''player'' \<Longrightarrow> move_entity cv inp dt e = Inr e"
  by (simp add: move_entity_def)

lemma move_entity_released:
  "move_entity cv None dt = move_entity cv (Some \<lparr>left = False, right = False\<rparr>) dt"
  by (rule ext) (simp add: move_entity_def input_left_def input_right_def)

text \<open>
  Claim C9. In a world with no entity of id \<open>player\<close>, the movement system and the
  collision system both return the world they were given, without an exception. A world
  without \<open>input\<close> is moved exactly as the same world with both keys released: the two
  results differ in the \<open>input\<close> field alone.
\<close>

theorem missing_player_or_input:
  "((\<forall>e\<in>set (entities w). entity_id e \<noteq> ''player'') \<longrightarrow>
      movementSystem cv w dt = Inr w \<and> collisionSystem w dt = Inr w) \<and>
   movementSystem cv (w\<lparr>input := None\<rparr>) dt =
     map_sum id (\<lambda>w'. w'\<lparr>input := None\<rparr>)
       (movementSystem cv (w\<lparr>input := Some \<lparr>left = False, right = False\<rparr>\<rparr>) dt)"
proof (intro conjI impI)
  assume none: "\<forall>e\<in>set (entities w). entity_id e \<noteq> ''player''"
  have "map_result (move_entity cv (input w) dt) (entities w) = Inr (map (\<lambda>e. e) (entities w))"
    using none by (intro map_result_map move_entity_other) simp
  then show "movementSystem cv w dt = Inr w"
    by (simp add: movementSystem_def)
  have "find (\<lambda>e. entity_id e = ''player'') (entities w) = None"
    using none by (simp add: find_None_iff)
  then show "collisionSystem w dt = Inr w"
    by (simp add: collisionSystem_def)
next
  show "movementSystem cv (w\<lparr>input := None\<rparr>) dt =
     map_sum id (\<lambda>w'. w'\<lparr>input := None\<rparr>)
       (movementSystem cv (w\<lparr>input := Some \<lparr>left = False, right = False\<rparr>\<rparr>) dt)"
    by (cases "map_result (move_entity cv (Some \<lparr>left = False, right = False\<rparr>) dt)
                 (entities w)")
      (simp_all add: movementSystem_def move_entity_released)
qed

text \<open>A world holding one bad block and no player comes back from both systems as it
  went in, although the left key is held.\<close>

theorem missing_player_or_input_witness:
  "map entity_id (entities empty_stage) = [''bad_2''] \<and>
   movementSystem demo_canvas empty_stage (2/125) = Inr empty_stage \<and>
   collisionSystem empty_stage (2/125) = Inr empty_stage"
proof -
  have none: "\<forall>e\<in>set (entities empty_stage). entity_id e \<noteq> ''player''"
    by (simp add: empty_stage_def demo_block_def)
  have ids: "map entity_id (entities empty_stage) = [''bad_2'']"
    by (simp add: empty_stage_def demo_block_def)
  from missing_player_or_input [of empty_stage demo_canvas "2/125"] none
  have "movementSystem demo_canvas empty_stage (2/125) = Inr empty_stage \<and>
      collisionSystem empty_stage (2/125) = Inr empty_stage"
    by (elim conjE impE) simp_all
  with ids show ?thesis by simp
qed

section \<open>Movement\<close>

lemma move_entity_player:
  assumes "entity_id e = ''player''" and "position (components e) = Some p"
  shows "move_entity cv inp dt e =
         Inr (e\<lparr>components := (components e)\<lparr>position :=
                Some \<lparr>pos_x = max 0 (min (canvas_width cv - PLAYER_SIZE)
                                (pos_x p + ((if input_left inp then - player_speed else 0)
                                          + (if input_right inp then player_speed else 0)) * dt)),
                      pos_y = pos_y p\<rparr>\<rparr>\<rparr>)"
  using assms by (simp add: move_entity_def Let_def)

lemma move_entity_shifted:
  assumes "entity_id e = ''player'' \<longrightarrow> position (components e) \<noteq> None"
  shows "move_entity cv inp dt e = Inr (shifted cv inp dt e)"
  using assms by (auto simp: shifted_def move_entity_def Let_def split: option.splits)

lemma movementSystem_total:
  assumes "\<forall>e\<in>set (entities w). entity_id e = ''player'' \<longrightarrow> position (components e) \<noteq> None"
  shows "movementSystem cv w dt =
         Inr (w\<lparr>entities := map (shifted cv (input w) dt) (entities w)\<rparr>)"
proof -
  have "map_result (move_entity cv (input w) dt) (entities w) =
      Inr (map (shifted cv (input w) dt) (entities w))"
    using assms by (intro map_result_map move_entity_shifted) simp
  then show ?thesis by (simp add: movementSystem_def)
qed

lemma shifted_other: "entity_id e \<noteq> ''player'' \<Longrightarrow> shifted cv inp dt e = e"
  by (simp add: shifted_def move_entity_def)

lemma shifted_player:
  assumes "entity_id e = ''player''" and "position (components e) = Some p"
  shows "shifted cv inp dt e =
         e\<lparr>components := (components e)\<lparr>position :=
              Some \<lparr>pos_x = max 0 (min (canvas_width cv - PLAYER_SIZE)
                              (pos_x p + ((if input_left inp then - player_speed else 0)
                                        + (if input_right inp then player_speed else 0)) * dt)),
                    pos_y = pos_y p\<rparr>\<rparr>\<rparr>"
  by (simp add: shifted_def move_entity_player [OF assms])

lemma velocity_agrees:
  assumes "inp = Some \<lparr>left = l, right = r\<rparr> \<or> inp = None \<and> \<not> l \<and> \<not> r"
  shows "(if input_left inp then - player_speed else 0)
       + (if input_right inp then player_speed else 0) = spec_velocity l r"
  using assms by (auto simp: input_left_def input_right_def player_speed_def spec_velocity_def)

text \<open>
  Claim C4, amended. Let the canvas be at least \<open>PLAYER_SIZE = 150\<close> wide, let the keys be
  \<open>l\<close> and \<open>r\<close> (a missing \<open>input\<close> counting as both released), and let every entity with id
  \<open>player\<close> have a position. Then, for every \<open>dt\<close>, the movement system returns the world
  with the same entities in the same places, of which every non-player is untouched and
  every player has only its position replaced: the new \<open>x\<close> is
  \<open>max 0 (min (canvas.width - 150) (x + velocity * dt))\<close>, it lies between \<open>0\<close> and
  \<open>canvas.width - 150\<close>, and \<open>y\<close> is the old \<open>y\<close>.
\<close>

theorem movement_clamp:
  assumes "PLAYER_SIZE \<le> canvas_width cv"
    and "input w = Some \<lparr>left = l, right = r\<rparr> \<or> input w = None \<and> \<not> l \<and> \<not> r"
    and "\<forall>e\<in>set (entities w). entity_id e = ''player'' \<longrightarrow> position (components e) \<noteq> None"
  shows "\<exists>w'. movementSystem cv w dt = Inr w' \<and>
           w' = w\<lparr>entities := entities w'\<rparr> \<and>
           length (entities w') = length (entities w) \<and>
           (\<forall>i<length (entities w).
              (entity_id (entities w ! i) \<noteq> ''player'' \<longrightarrow> entities w' ! i = entities w ! i) \<and>
              (entity_id (entities w ! i) = ''player'' \<longrightarrow>
                 (\<exists>p p'. position (components (entities w ! i)) = Some p \<and>
                    entities w' ! i =
                      (entities w ! i)\<lparr>components :=
                         (components (entities w ! i))\<lparr>position := Some p'\<rparr>\<rparr> \<and>
                    pos_x p' = max 0 (min (canvas_width cv - PLAYER_SIZE)
                                        (pos_x p + spec_velocity l r * dt)) \<and>
                    0 \<le> pos_x p' \<and> pos_x p' \<le> canvas_width cv - PLAYER_SIZE \<and>
                    pos_y p' = pos_y p)))"
proof -
  let ?w' = "w\<lparr>entities := map (shifted cv (input w) dt) (entities w)\<rparr>"
  have run: "movementSystem cv w dt = Inr ?w'"
    using assms(3) by (rule movementSystem_total)
  have each: "(entity_id (entities w ! i) \<noteq> ''player'' \<longrightarrow> entities ?w' ! i = entities w ! i) \<and>
      (entity_id (entities w ! i) = ''player'' \<longrightarrow>
         (\<exists>p p'. position (components (entities w ! i)) = Some p \<and>
            entities ?w' ! i =
              (entities w ! i)\<lparr>components :=
                 (components (entities w ! i))\<lparr>position := Some p'\<rparr>\<rparr> \<and>
            pos_x p' = max 0 (min (canvas_width cv - PLAYER_SIZE)
                                (pos_x p + spec_velocity l r * dt)) \<and>
            0 \<le> pos_x p' \<and> pos_x p' \<le> canvas_width cv - PLAYER_SIZE \<and>
            pos_y p' = pos_y p))"
    if i: "i < length (entities w)" for i
  proof (intro conjI impI)
    assume "entity_id (entities w ! i) \<noteq> ''player''"
    then show "entities ?w' ! i = entities w ! i"
      using i by (simp add: shifted_other)
  next
    assume pl: "entity_id (entities w ! i) = ''player''"
    from i have "entities w ! i \<in> set (entities w)" by simp
    with assms(3) pl obtain p where p: "position (components (entities w ! i)) = Some p"
      by auto
    let ?x = "max 0 (min (canvas_width cv - PLAYER_SIZE) (pos_x p + spec_velocity l r * dt))"
    have "entities ?w' ! i =
        (entities w ! i)\<lparr>components := (components (entities w ! i))\<lparr>position :=
           Some \<lparr>pos_x = ?x, pos_y = pos_y p\<rparr>\<rparr>\<rparr>"
      using i by (simp add: shifted_player [OF pl p] velocity_agrees [OF assms(2)])
    moreover have "0 \<le> ?x \<and> ?x \<le> canvas_width cv - PLAYER_SIZE"
      using assms(1) by simp
    ultimately show "\<exists>p p'. position (components (entities w ! i)) = Some p \<and>
        entities ?w' ! i =
          (entities w ! i)\<lparr>components :=
             (components (entities w ! i))\<lparr>position := Some p'\<rparr>\<rparr> \<and>
        pos_x p' = max 0 (min (canvas_width cv - PLAYER_SIZE)
                            (pos_x p + spec_velocity l r * dt)) \<and>
        0 \<le> pos_x p' \<and> pos_x p' \<le> canvas_width cv - PLAYER_SIZE \<and>
        pos_y p' = pos_y p"
      using p by (intro exI [of _ p] exI [of _ "\<lparr>pos_x = ?x, pos_y = pos_y p\<rparr>"]) simp
  qed
  show ?thesis
    using run each by (intro exI [of _ ?w']) simp
qed

text \<open>On the 800 x 600 canvas with the left key held for 16 ms, the player goes from
  \<open>x = 325\<close> to \<open>x = 319.4\<close>; the block does not move.\<close>

theorem movement_clamp_witness:
  "PLAYER_SIZE \<le> canvas_width demo_canvas \<and>
   input walking_world = Some \<lparr>left = True, right = False\<rparr> \<and>
   map entity_id (entities walking_world) = [''player'', ''bad_2''] \<and>
   position (components (player demo_canvas)) = Some \<lparr>pos_x = 325, pos_y = 430\<rparr> \<and>
   movementSystem demo_canvas walking_world (2/125) =
     Inr (walking_world
            \<lparr>entities :=
               [(player demo_canvas)
                  \<lparr>components := (components (player demo_canvas))
                     \<lparr>position := Some \<lparr>pos_x = 1597/5, pos_y = 430\<rparr>\<rparr>\<rparr>,
                demo_block ''bad_2'' 350 420 ''bad'']\<rparr>)"
proof -
  have wide: "PLAYER_SIZE \<le> canvas_width demo_canvas"
    by (simp add: PLAYER_SIZE_def demo_canvas_def)
  have keys: "input walking_world = Some \<lparr>left = True, right = False\<rparr> \<or>
      input walking_world = None \<and> \<not> True \<and> \<not> False"
    by (simp add: walking_world_def)
  have pos: "\<forall>e\<in>set (entities walking_world).
      entity_id e = ''player'' \<longrightarrow> position (components e) \<noteq> None"
    by (simp add: walking_world_def player_def demo_block_def)
  have run: "movementSystem demo_canvas walking_world (2/125) =
     Inr (walking_world
            \<lparr>entities :=
               [(player demo_canvas)
                  \<lparr>components := (components (player demo_canvas))
                     \<lparr>position := Some \<lparr>pos_x = 1597/5, pos_y = 430\<rparr>\<rparr>\<rparr>,
                demo_block ''bad_2'' 350 420 ''bad'']\<rparr>)"
    by (simp add: movementSystem_def move_entity_def walking_world_def player_def
        demo_block_def demo_canvas_def PLAYER_SIZE_def player_speed_def input_left_def
        input_right_def Let_def)
  have ids: "map entity_id (entities walking_world) = [''player'', ''bad_2''] \<and>
      position (components (player demo_canvas)) = Some \<lparr>pos_x = 325, pos_y = 430\<rparr>"
    by (simp add: walking_world_def player_def demo_block_def demo_canvas_def PLAYER_SIZE_def)
  from movement_clamp [OF wide keys pos, of "2/125"] show ?thesis
    using wide ids run by (simp add: walking_world_def)
qed

text \<open>
  Claim C4 as stated fails on a canvas narrower than the player. In a window 100 pixels
  wide the movement system puts the player at \<open>x = 0\<close>, and \<open>0\<close> is not in the interval
  from \<open>0\<close> to \<open>canvas.width - PLAYER_SIZE = -50\<close>.
\<close>

theorem movement_clamp_counterexample:
  "movementSystem narrow_canvas narrow_world (2/125) =
     Inr (narrow_world
            \<lparr>entities :=
               [(player narrow_canvas)
                  \<lparr>components := (components (player narrow_canvas))
                     \<lparr>position := Some \<lparr>pos_x = 0, pos_y = 430\<rparr>\<rparr>\<rparr>]\<rparr>) \<and>
   \<not> (0 \<le> (0::real) \<and> (0::real) \<le> canvas_width narrow_canvas - PLAYER_SIZE)"
  by (simp add: movementSystem_def move_entity_def narrow_world_def initial_world_def
      createWorld_def addEntity_def player_def narrow_canvas_def PLAYER_SIZE_def
      player_speed_def input_left_def input_right_def Let_def)

text \<open>
  Claim C10. For every entity with id \<open>player\<close> that has a position, whatever its size
  component is, the movement callback returns the entity with
  \<open>x = max 0 (min (canvas.width - 150) (x + dx * dt))\<close>: the bound is the constant 150 and
  the lower bound \<open>0\<close> is applied last. Replacing the size component changes nothing in the
  new position. On a canvas narrower than 150 the movement system therefore puts every
  player at \<open>x = 0\<close>, which is greater than \<open>canvas.width - 150\<close>.
\<close>

theorem movement_fixed_player_size:
  "(entity_id e = ''player'' \<and> position (components e) = Some p \<longrightarrow>
      (\<exists>e'. move_entity cv inp dt (e\<lparr>components := (components e)\<lparr>size_c := s\<rparr>\<rparr>) = Inr e' \<and>
         position (components e') =
           Some \<lparr>pos_x = max 0 (min (canvas_width cv - 150)
                            (pos_x p + ((if input_left inp then - 350 else 0)
                                      + (if input_right inp then 350 else 0)) * dt)),
                 pos_y = pos_y p\<rparr>)) \<and>
   (canvas_width cv < 150 \<and> movementSystem cv w dt = Inr w' \<longrightarrow>
      (\<forall>e'\<in>set (entities w'). entity_id e' = ''player'' \<longrightarrow>
         (\<exists>p'. position (components e') = Some p' \<and> pos_x p' = 0 \<and>
               canvas_width cv - 150 < pos_x p')))"
proof (intro conjI impI)
  assume "entity_id e = ''player'' \<and> position (components e) = Some p"
  then show "\<exists>e'. move_entity cv inp dt (e\<lparr>components := (components e)\<lparr>size_c := s\<rparr>\<rparr>) = Inr e' \<and>
         position (components e') =
           Some \<lparr>pos_x = max 0 (min (canvas_width cv - 150)
                            (pos_x p + ((if input_left inp then - 350 else 0)
                                      + (if input_right inp then 350 else 0)) * dt)),
                 pos_y = pos_y p\<rparr>"
    by (simp add: move_entity_def Let_def PLAYER_SIZE_def player_speed_def)
next
  assume a: "canvas_width cv < 150 \<and> movementSystem cv w dt = Inr w'"
  then obtain es where es: "map_result (move_entity cv (input w) dt) (entities w) = Inr es"
    and w': "w' = w\<lparr>entities := es\<rparr>"
    by (auto simp: movementSystem_def and_then_eq_Inr)
  from es have rel: "list_all2 (\<lambda>x y. move_entity cv (input w) dt x = Inr y) (entities w) es"
    by (simp add: map_result_all2)
  show "\<forall>e'\<in>set (entities w'). entity_id e' = ''player'' \<longrightarrow>
         (\<exists>p'. position (components e') = Some p' \<and> pos_x p' = 0 \<and>
               canvas_width cv - 150 < pos_x p')"
  proof (intro ballI impI)
    fix e' assume "e' \<in> set (entities w')" and pl: "entity_id e' = ''player''"
    then have "e' \<in> set es" by (simp add: w')
    then obtain x where "x \<in> set (entities w)"
      and mv: "move_entity cv (input w) dt x = Inr e'"
      using all2_source [OF rel] by blast
    then show "\<exists>p'. position (components e') = Some p' \<and> pos_x p' = 0 \<and>
        canvas_width cv - 150 < pos_x p'"
      using a pl
      by (auto simp: move_entity_def Let_def PLAYER_SIZE_def split: if_splits option.splits)
  qed
qed

text \<open>In the window 100 pixels wide the player, pushed right from \<open>x = -25\<close>, lands on
  \<open>x = 0 > -50\<close>.\<close>

theorem movement_fixed_player_size_witness:
  "entity_id (player narrow_canvas) = ''player'' \<and>
   position (components (player narrow_canvas)) = Some \<lparr>pos_x = - 25, pos_y = 430\<rparr> \<and>
   canvas_width narrow_canvas < 150 \<and>
   movementSystem narrow_canvas narrow_world (2/125) =
     Inr (narrow_world
            \<lparr>entities :=
               [(player narrow_canvas)
                  \<lparr>components := (components (player narrow_canvas))
                     \<lparr>position := Some \<lparr>pos_x = 0, pos_y = 430\<rparr>\<rparr>\<rparr>]\<rparr>) \<and>
   (\<exists>e'. move_entity narrow_canvas (Some \<lparr>left = False, right = True\<rparr>) (2/125)
            ((player narrow_canvas)
               \<lparr>components := (components (player narrow_canvas))\<lparr>size_c := None\<rparr>\<rparr>) = Inr e' \<and>
          position (components e') = Some \<lparr>pos_x = 0, pos_y = 430\<rparr>)"
proof -
  have pl: "entity_id (player narrow_canvas) = ''player'' \<and>
      position (components (player narrow_canvas)) = Some \<lparr>pos_x = - 25, pos_y = 430\<rparr>"
    by (simp add: player_def narrow_canvas_def PLAYER_SIZE_def)
  have run: "movementSystem narrow_canvas narrow_world (2/125) =
     Inr (narrow_world
            \<lparr>entities :=
               [(player narrow_canvas)
                  \<lparr>components := (components (player narrow_canvas))
                     \<lparr>position := Some \<lparr>pos_x = 0, pos_y = 430\<rparr>\<rparr>\<rparr>]\<rparr>)"
    by (simp add: movementSystem_def move_entity_def narrow_world_def initial_world_def
        createWorld_def addEntity_def player_def narrow_canvas_def PLAYER_SIZE_def
        player_speed_def input_left_def input_right_def Let_def)
  have narrow: "canvas_width narrow_canvas < 150"
    by (simp add: narrow_canvas_def)
  from movement_fixed_player_size [of "player narrow_canvas" "\<lparr>pos_x = - 25, pos_y = 430\<rparr>"
      narrow_canvas "Some \<lparr>left = False, right = True\<rparr>" "2/125" None narrow_world]
  show ?thesis
    using pl run narrow by (simp add: input_left_def input_right_def)
qed

section \<open>The pipeline\<close>

lemma update_unfold:
  "update fr w dt =
     and_then (movementSystem (frame_canvas fr) (inputSystem (inputState fr) (timeSystem w dt) dt) dt)
       (\<lambda>w3. and_then
          (collisionSystem
             (difficultySystem
                (fallingSystem
                   (spawnerSystem (frame_canvas fr) (random_x fr) (random_kind fr) w3 dt) dt) dt) dt)
          (\<lambda>w7. cleanupSystem (frame_canvas fr) w7 dt))"
proof (cases "movementSystem (frame_canvas fr)
                (inputSystem (inputState fr) (timeSystem w dt) dt) dt")
  case (Inl err)
  then show ?thesis by (simp add: update_def pipeSystems_def)
next
  case (Inr w3)
  then show ?thesis
    by (cases "collisionSystem
                 (difficultySystem
                    (fallingSystem
                       (spawnerSystem (frame_canvas fr) (random_x fr) (random_kind fr) w3 dt)
                       dt) dt) dt")
      (simp_all add: update_def pipeSystems_def)
qed

lemma run_frames_append:
  "run_frames (xs @ ys) w = and_then (run_frames xs w) (run_frames ys)"
proof (induction xs arbitrary: w)
  case Nil
  show ?case by simp
next
  case (Cons x xs)
  obtain fr dt where x: "x = (fr, dt)" by (cases x)
  show ?case
    by (cases "update fr w dt") (simp_all add: x Cons.IH)
qed

subsection \<open>What each system does to time, score and the game flag\<close>

lemma movementSystem_frame:
  "movementSystem cv w dt = Inr w' \<Longrightarrow>
   time w' = time w \<and> score w' = score w \<and> game w' = game w"
  by (auto simp: movementSystem_def and_then_eq_Inr)

lemma cleanupSystem_frame:
  "cleanupSystem cv w dt = Inr w' \<Longrightarrow>
   time w' = time w \<and> score w' = score w \<and> game w' = game w"
  by (auto simp: cleanupSystem_def and_then_eq_Inr)

lemma spawnerSystem_frame:
  "time (spawnerSystem cv rx rk w dt) = time w \<and>
   score (spawnerSystem cv rx rk w dt) = score w \<and>
   game (spawnerSystem cv rx rk w dt) = game w"
  by (simp add: spawnerSystem_def Let_def addEntity_def)

lemma fallingSystem_frame:
  "time (fallingSystem w dt) = time w \<and> score (fallingSystem w dt) = score w \<and>
   game (fallingSystem w dt) = game w"
  by (simp add: fallingSystem_def)

lemma difficultySystem_frame:
  "time (difficultySystem w dt) = time w \<and> score (difficultySystem w dt) = score w \<and>
   game (difficultySystem w dt) = game w"
  by (simp add: difficultySystem_def Let_def)

lemma pickup_step_grows:
  "pickup_step pr e n = Inr (keep, n') \<Longrightarrow> n \<le> n'"
  by (auto simp: pickup_step_def Let_def and_then_eq_Inr split: option.splits if_splits)

lemma filter_earned_grows:
  "filter_earned pr es n = Inr (kept, n') \<Longrightarrow> n \<le> n'"
proof (induction es arbitrary: n kept n')
  case Nil
  then show ?case by simp
next
  case (Cons e es)
  from Cons.prems obtain keep m kept' where
    step: "pickup_step pr e n = Inr (keep, m)" and
    rest: "filter_earned pr es m = Inr (kept', n')"
    by (auto simp: and_then_eq_Inr split: prod.splits)
  from pickup_step_grows [OF step] Cons.IH [OF rest] show ?case by simp
qed

lemma collisionSystem_over: "over (game w) \<Longrightarrow> collisionSystem w dt = Inr w"
  by (simp add: collisionSystem_def)

lemma collisionSystem_frame:
  assumes "collisionSystem w dt = Inr w'"
  shows "time w' = time w \<and> score w \<le> score w'"
proof (cases "over (game w)")
  case True
  with assms show ?thesis by (simp add: collisionSystem_over)
next
  case False
  show ?thesis
  proof (cases "find (\<lambda>e. entity_id e = ''player'') (entities w)")
    case None
    with assms False show ?thesis by (simp add: collisionSystem_def)
  next
    case (Some pl)
    with assms False obtain pr kept n hitBad where
      "filter_earned pr (entities w) 0 = Inr (kept, n)" and
      "w' = w\<lparr>entities := kept, score := score w + n, game := \<lparr>over = hitBad\<rparr>\<rparr>"
      by (auto simp: collisionSystem_def and_then_eq_Inr split: prod.splits)
    with filter_earned_grows [of pr "entities w" 0 kept n] show ?thesis by simp
  qed
qed

lemma update_frame:
  assumes "update fr w dt = Inr w'"
  shows "time w' = time w + dt \<and> score w \<le> score w' \<and>
         (over (game w) \<longrightarrow> over (game w') \<and> score w' = score w)"
proof -
  let ?cv = "frame_canvas fr"
  from assms obtain w3 w7 where
    mv: "movementSystem ?cv (inputSystem (inputState fr) (timeSystem w dt) dt) dt = Inr w3" and
    col: "collisionSystem
            (difficultySystem
               (fallingSystem (spawnerSystem ?cv (random_x fr) (random_kind fr) w3 dt) dt) dt)
            dt = Inr w7" and
    cl: "cleanupSystem ?cv w7 dt = Inr w'"
    by (auto simp: update_unfold and_then_eq_Inr)
  let ?w6 = "difficultySystem
               (fallingSystem (spawnerSystem ?cv (random_x fr) (random_kind fr) w3 dt) dt) dt"
  have w3: "time w3 = time w + dt \<and> score w3 = score w \<and> game w3 = game w"
    using movementSystem_frame [OF mv] by (simp add: inputSystem_def timeSystem_def)
  have w6: "time ?w6 = time w3 \<and> score ?w6 = score w3 \<and> game ?w6 = game w3"
    by (simp add: difficultySystem_frame fallingSystem_frame spawnerSystem_frame)
  have w7: "time w7 = time ?w6 \<and> score ?w6 \<le> score w7"
    using col by (rule collisionSystem_frame)
  have w7': "w7 = ?w6" if "over (game w)"
    using col that w3 w6 by (simp add: collisionSystem_over)
  have w': "time w' = time w7 \<and> score w' = score w7 \<and> game w' = game w7"
    using cl by (rule cleanupSystem_frame)
  show ?thesis
    using w3 w6 w7 w7' w' by auto
qed

subsection \<open>Well-formed worlds stay well-formed\<close>

lemma same_shape_shifted: "same_shape e (shifted cv inp dt e)"
  by (auto simp: same_shape_def shifted_def move_entity_def Let_def split: option.splits)

lemma same_shape_fall: "same_shape e (fall_entity dt e)"
  by (auto simp: same_shape_def fall_entity_def split: option.splits)

lemma same_shape_rescale: "same_shape e (rescale_entity m e)"
  by (auto simp: same_shape_def rescale_entity_def split: option.splits)

lemma well_formed_entities:
  "entities w' = entities w \<Longrightarrow> well_formed w' = well_formed w"
  by (simp add: well_formed_def player_count_def players_untagged_def
      players_have_geometry_def blocks_have_geometry_def)

lemma player_count_map:
  assumes "\<And>e. same_shape e (g e)" and "entities w' = map g (entities w)"
  shows "player_count w' = player_count w"
proof -
  have "(\<lambda>e. entity_id (g e) = ''player'') = (\<lambda>e. entity_id e = ''player'')"
    using assms(1) by (simp add: same_shape_def)
  then show ?thesis
    by (simp add: player_count_def assms(2) filter_map o_def)
qed

lemma well_formed_map:
  assumes wf: "well_formed w" and shape: "\<And>e. same_shape e (g e)"
    and ents: "entities w' = map g (entities w)"
  shows "well_formed w'"
proof -
  have ident: "entity_id (g e) = entity_id e" for e
    using shape [of e] by (simp add: same_shape_def)
  have tg: "tag (components (g e)) = tag (components e)" for e
    using shape [of e] by (simp add: same_shape_def)
  have sz: "size_c (components (g e)) = size_c (components e)" for e
    using shape [of e] by (simp add: same_shape_def)
  have ps: "(position (components (g e)) = None) = (position (components e) = None)" for e
    using shape [of e] by (simp add: same_shape_def)
  have one: "player_count w' = 1"
    using wf player_count_map [OF shape ents] by (simp add: well_formed_def)
  have untagged: "players_untagged w'"
    using wf by (simp add: well_formed_def players_untagged_def ents ident tg)
  have pgeo: "players_have_geometry w'"
    using wf
    by (simp add: well_formed_def players_have_geometry_def ents ident sz ps
        del: not_None_eq)
  have bgeo: "blocks_have_geometry w'"
    using wf
    by (simp add: well_formed_def blocks_have_geometry_def ents tg sz ps del: not_None_eq)
  show ?thesis
    using one untagged pgeo bgeo by (simp add: well_formed_def)
qed

lemma player_count_filter:
  assumes "players_untagged w" and "entities w' = filter P (entities w)"
    and "\<And>e. tag (components e) = None \<Longrightarrow> P e"
  shows "player_count w' = player_count w"
proof -
  have "filter (\<lambda>e. entity_id e = ''player'') (filter P (entities w)) =
      filter (\<lambda>e. entity_id e = ''player'') (entities w)"
    using assms(1,3) by (auto simp: players_untagged_def intro: filter_cong)
  then show ?thesis by (simp add: player_count_def assms(2))
qed

lemma well_formed_filter:
  assumes wf: "well_formed w" and ents: "entities w' = filter P (entities w)"
    and keep: "\<And>e. tag (components e) = None \<Longrightarrow> P e"
  shows "well_formed w'"
proof -
  have "player_count w' = 1"
    using wf player_count_filter [OF _ ents keep] by (simp add: well_formed_def)
  then show ?thesis
    using wf
    by (simp add: well_formed_def players_untagged_def players_have_geometry_def
        blocks_have_geometry_def ents)
qed

lemma block_id_not_player:
  "(if rk < (0.7::real) then ''bad'' else ''good'') @ ''_'' @ s \<noteq> ''player''"
  by simp

lemma well_formed_spawner:
  assumes "well_formed w"
  shows "well_formed (spawnerSystem cv rx rk w dt)"
proof (cases "time w - spawn_last (spawn w) < interval (spawn w)")
  case True
  with assms show ?thesis by (simp add: spawnerSystem_def)
next
  case False
  define b where "b = createBlock
    ((if rk < 0.7 then ''bad'' else ''good'') @ ''_'' @ string_of_int \<lfloor>time w * 1000\<rfloor>)
    (rx * (canvas_width cv - BLOCK_SIZE)) (if rk < 0.7 then ''bad'' else ''good'')"
  have ents: "entities (spawnerSystem cv rx rk w dt) = entities w @ [b]"
    using False by (simp add: spawnerSystem_def Let_def addEntity_def b_def)
  have other: "entity_id b \<noteq> ''player''"
    unfolding b_def createBlock_def using block_id_not_player [of rk] by simp
  have geo: "position (components b) \<noteq> None \<and> size_c (components b) \<noteq> None"
    by (simp add: b_def createBlock_def)
  show ?thesis
    using assms other geo
    by (simp add: well_formed_def player_count_def players_untagged_def
        players_have_geometry_def blocks_have_geometry_def ents)
qed

lemma well_formed_movement:
  assumes "well_formed w"
  shows "\<exists>w'. movementSystem cv w dt = Inr w' \<and> well_formed w'"
proof -
  have "\<forall>e\<in>set (entities w). entity_id e = ''player'' \<longrightarrow> position (components e) \<noteq> None"
    using assms by (simp add: well_formed_def players_have_geometry_def)
  then have "movementSystem cv w dt =
      Inr (w\<lparr>entities := map (shifted cv (input w) dt) (entities w)\<rparr>)"
    by (rule movementSystem_total)
  moreover have "well_formed (w\<lparr>entities := map (shifted cv (input w) dt) (entities w)\<rparr>)"
    using assms
    by (rule well_formed_map [where g = "shifted cv (input w) dt"])
      (simp_all add: same_shape_shifted)
  ultimately show ?thesis by blast
qed

lemma well_formed_falling: "well_formed w \<Longrightarrow> well_formed (fallingSystem w dt)"
  by (rule well_formed_map [where g = "fall_entity dt"])
    (simp_all add: same_shape_fall fallingSystem_def)

lemma well_formed_difficulty: "well_formed w \<Longrightarrow> well_formed (difficultySystem w dt)"
  by (rule well_formed_map
      [where g = "rescale_entity (factor (difficulty w) powi \<lfloor>time w / step (difficulty w)\<rfloor>)"])
    (simp_all add: same_shape_rescale difficultySystem_def Let_def)

lemma well_formed_collision:
  assumes "well_formed w"
  shows "\<exists>w'. collisionSystem w dt = Inr w' \<and> well_formed w' \<and>
           (\<forall>e\<in>set (entities w). tag (components e) = None \<longrightarrow> e \<in> set (entities w'))"
proof (cases "over (game w)")
  case True
  with assms show ?thesis by (simp add: collisionSystem_over)
next
  case False
  have "filter (\<lambda>e. entity_id e = ''player'') (entities w) \<noteq> []"
    using assms by (auto simp: well_formed_def player_count_def)
  then obtain pl where pl: "find (\<lambda>e. entity_id e = ''player'') (entities w) = Some pl"
    by (cases "find (\<lambda>e. entity_id e = ''player'') (entities w)")
      (auto simp: find_None_iff filter_empty_conv)
  then have "pl \<in> set (entities w) \<and> entity_id pl = ''player''"
    by (auto simp: find_Some_iff)
  then have "position (components pl) \<noteq> None \<and> size_c (components pl) \<noteq> None"
    using assms by (simp add: well_formed_def players_have_geometry_def)
  then obtain pr where box:
    "hitboxWithMargins (position (components pl)) (size_c (components pl)) PLAYER_MARGINS
       = Inr pr"
    by (auto simp: hitboxWithMargins_def)
  have geo: "blocks_have_geometry w"
    using assms by (simp add: well_formed_def)
  let ?w' = "w\<lparr>entities := filter (\<lambda>e. \<not> good_overlap pr e) (entities w),
               score := score w + int (length (filter (good_overlap pr) (entities w))),
               game := \<lparr>over = (\<exists>e\<in>set (entities w). bad_overlap pr e)\<rparr>\<rparr>"
  have run: "collisionSystem w dt = Inr ?w'"
    using False pl box geo by (rule collisionSystem_total)
  have keep: "\<not> good_overlap pr e" if "tag (components e) = None" for e
    using that overlap_needs_tag [of pr e] by blast
  have "well_formed ?w'"
    using assms
    by (rule well_formed_filter [where P = "\<lambda>e. \<not> good_overlap pr e"])
      (simp_all add: keep)
  then show ?thesis
    using run keep by (intro exI [of _ ?w']) simp
qed

lemma well_formed_cleanup:
  assumes "well_formed w"
  shows "\<exists>w'. cleanupSystem cv w dt = Inr w' \<and> well_formed w' \<and>
           (\<forall>e\<in>set (entities w). tag (components e) = None \<longrightarrow> e \<in> set (entities w'))"
proof -
  let ?P = "\<lambda>e. tag (components e) = None \<or>
              (\<exists>p s. position (components e) = Some p \<and> size_c (components e) = Some s \<and>
                     pos_y p < canvas_height cv + size_h s)"
  have "blocks_have_geometry w"
    using assms by (simp add: well_formed_def)
  then have run: "cleanupSystem cv w dt = Inr (w\<lparr>entities := filter ?P (entities w)\<rparr>)"
    by (rule cleanupSystem_total)
  have "well_formed (w\<lparr>entities := filter ?P (entities w)\<rparr>)"
    using assms by (rule well_formed_filter [where P = ?P]) simp_all
  then show ?thesis
    using run by (intro exI [of _ "w\<lparr>entities := filter ?P (entities w)\<rparr>"]) simp
qed

lemma well_formed_update:
  assumes "well_formed w"
  shows "\<exists>w'. update fr w dt = Inr w' \<and> well_formed w'"
proof -
  let ?cv = "frame_canvas fr"
  have "entities (inputSystem (inputState fr) (timeSystem w dt) dt) = entities w"
    by (simp add: inputSystem_def timeSystem_def)
  from this assms have "well_formed (inputSystem (inputState fr) (timeSystem w dt) dt)"
    by (rule well_formed_entities [THEN iffD2])
  then obtain w3 where
    mv: "movementSystem ?cv (inputSystem (inputState fr) (timeSystem w dt) dt) dt = Inr w3"
    and wf3: "well_formed w3"
    using well_formed_movement by blast
  let ?w6 = "difficultySystem
               (fallingSystem (spawnerSystem ?cv (random_x fr) (random_kind fr) w3 dt) dt) dt"
  have "well_formed ?w6"
    using wf3 by (intro well_formed_difficulty well_formed_falling well_formed_spawner)
  then obtain w7 where col: "collisionSystem ?w6 dt = Inr w7" and wf7: "well_formed w7"
    using well_formed_collision by blast
  obtain w' where cl: "cleanupSystem ?cv w7 dt = Inr w'" and wf': "well_formed w'"
    using well_formed_cleanup [OF wf7] by blast
  have "update fr w dt = Inr w'"
    by (simp add: update_unfold mv col cl)
  with wf' show ?thesis by blast
qed

lemma well_formed_run:
  "well_formed w \<Longrightarrow> \<exists>w'. run_frames frames w = Inr w' \<and> well_formed w'"
proof (induction frames arbitrary: w)
  case Nil
  then show ?case by simp
next
  case (Cons x frames)
  obtain fr dt where x: "x = (fr, dt)" by (cases x)
  from well_formed_update [OF Cons.prems, of fr dt]
  obtain w1 where "update fr w dt = Inr w1" and "well_formed w1" by blast
  with Cons.IH [of w1] show ?case by (simp add: x)
qed

lemma well_formed_initial: "well_formed (initial_world cv)"
  by (simp add: well_formed_def player_count_def players_untagged_def
      players_have_geometry_def blocks_have_geometry_def initial_world_def addEntity_def
      createWorld_def player_def)

section \<open>Time and score over a run\<close>

lemma run_frames_mono:
  assumes "\<forall>p\<in>set frames. 0 \<le> snd p" and "run_frames frames w = Inr w'"
  shows "time w \<le> time w' \<and> score w \<le> score w' \<and>
         (over (game w) \<longrightarrow> over (game w') \<and> score w' = score w)"
  using assms
proof (induction frames arbitrary: w)
  case Nil
  then show ?case by simp
next
  case (Cons x frames)
  obtain fr dt where x: "x = (fr, dt)" by (cases x)
  from Cons.prems(2) obtain w1 where
    first: "update fr w dt = Inr w1" and rest: "run_frames frames w1 = Inr w'"
    by (auto simp: x and_then_eq_Inr)
  have dt: "0 \<le> dt"
    using Cons.prems(1) by (simp add: x)
  have tail: "\<forall>p\<in>set frames. 0 \<le> snd p"
    using Cons.prems(1) by simp
  from update_frame [OF first] Cons.IH [OF tail rest] dt show ?case
    by auto
qed

text \<open>
  Claim C6. Take any list of frames whose \<open>dt\<close> are not negative, cut it anywhere in two,
  and let the run over the whole list return \<open>w'\<close>. Then the run reaches a world \<open>mid\<close> at
  the cut, and from the start to \<open>mid\<close> to \<open>w'\<close> neither the time nor the score decreases;
  if the game is over at \<open>mid\<close>, it is over at \<open>w'\<close> with the same score. The collision
  system returns a world that is over as it is, and no other system writes the score. Every
  run from a well-formed world returns.
\<close>

theorem time_score_monotone:
  assumes "\<forall>p\<in>set frames. 0 \<le> snd p"
    and "frames = before @ after"
    and "run_frames frames w = Inr w'"
  shows "(\<exists>mid. run_frames before w = Inr mid \<and> run_frames after mid = Inr w' \<and>
            time w \<le> time mid \<and> time mid \<le> time w' \<and>
            score w \<le> score mid \<and> score mid \<le> score w' \<and>
            (over (game mid) \<longrightarrow> over (game w') \<and> score w' = score mid)) \<and>
         (over (game w) \<longrightarrow> collisionSystem w dt = Inr w) \<and>
         score (timeSystem w dt) = score w \<and>
         score (inputSystem st w dt) = score w \<and>
         (\<forall>v. movementSystem cv w dt = Inr v \<longrightarrow> score v = score w) \<and>
         score (spawnerSystem cv rx rk w dt) = score w \<and>
         score (fallingSystem w dt) = score w \<and>
         score (difficultySystem w dt) = score w \<and>
         (\<forall>v. cleanupSystem cv w dt = Inr v \<longrightarrow> score v = score w) \<and>
         (well_formed w \<longrightarrow> (\<exists>v. run_frames others w = Inr v))"
proof -
  from assms(2,3) obtain mid where
    one: "run_frames before w = Inr mid" and two: "run_frames after mid = Inr w'"
    by (auto simp: run_frames_append and_then_eq_Inr)
  have "\<forall>p\<in>set before. 0 \<le> snd p" and "\<forall>p\<in>set after. 0 \<le> snd p"
    using assms(1,2) by simp_all
  then have run: "time w \<le> time mid \<and> time mid \<le> time w' \<and>
      score w \<le> score mid \<and> score mid \<le> score w' \<and>
      (over (game mid) \<longrightarrow> over (game w') \<and> score w' = score mid)"
    using run_frames_mono [OF _ one] run_frames_mono [OF _ two] by simp
  have stages: "score (timeSystem w dt) = score w \<and>
      score (inputSystem st w dt) = score w \<and>
      score (spawnerSystem cv rx rk w dt) = score w \<and>
      score (fallingSystem w dt) = score w \<and>
      score (difficultySystem w dt) = score w"
    by (simp add: timeSystem_def inputSystem_def spawnerSystem_frame fallingSystem_frame
        difficultySystem_frame)
  have total: "well_formed w \<longrightarrow> (\<exists>v. run_frames others w = Inr v)"
    using well_formed_run [of w others] by blast
  show ?thesis
    using one two run stages total collisionSystem_over [of w dt]
      movementSystem_frame [of cv w dt] cleanupSystem_frame [of cv w dt]
    by (intro conjI exI [of _ mid]) simp_all
qed

lemmas system_defs =
  update_def pipeSystems_def timeSystem_def inputSystem_def movementSystem_def
  move_entity_def spawnerSystem_def fallingSystem_def fall_entity_def difficultySystem_def
  rescale_entity_def collisionSystem_def pickup_step_def bad_hit_def hitboxWithMargins_def
  rectsOverlap_def cleanupSystem_def on_screen_def createBlock_def addEntity_def
  PLAYER_SIZE_def BLOCK_SIZE_def player_speed_def input_left_def input_right_def
  PLAYER_MARGINS_def GOOD_MARGINS_def BAD_MARGINS_def Let_def

lemmas sample_defs =
  crash_world_def late_world_def initial_world_def createWorld_def player_def
  demo_block_def demo_canvas_def demo_frames_def demo_frame_1_def demo_frame_2_def

text \<open>Two frames from the world where the player touches a good and a bad block: the
  first frame scores the point and ends the game at time 0.016, the second only advances
  the time to 0.032.\<close>

theorem time_score_monotone_witness:
  "map snd demo_frames = [2/125, 2/125] \<and>
   demo_frames = [demo_frame_1] @ [demo_frame_2] \<and>
   (\<exists>mid w'. run_frames demo_frames crash_world = Inr w' \<and>
      run_frames [demo_frame_1] crash_world = Inr mid \<and>
      run_frames [demo_frame_2] mid = Inr w' \<and>
      time crash_world = 0 \<and> time mid = 2/125 \<and> time w' = 4/125 \<and>
      score crash_world = 3 \<and> score mid = 4 \<and> score w' = 4 \<and>
      \<not> over (game crash_world) \<and> over (game mid) \<and> over (game w'))"
proof -
  have nonneg: "\<forall>p\<in>set demo_frames. 0 \<le> snd p"
    by (simp add: demo_frames_def demo_frame_1_def demo_frame_2_def)
  have cut: "demo_frames = [demo_frame_1] @ [demo_frame_2]"
    by (simp add: demo_frames_def)
  have "\<exists>w'. run_frames demo_frames crash_world = Inr w' \<and>
      time w' = 4/125 \<and> score w' = 4 \<and> over (game w')"
    by (simp add: system_defs sample_defs)
  then obtain w' where run: "run_frames demo_frames crash_world = Inr w'"
    and end_facts: "time w' = 4/125 \<and> score w' = 4 \<and> over (game w')"
    by blast
  have "\<exists>m. run_frames [demo_frame_1] crash_world = Inr m \<and>
      time m = 2/125 \<and> score m = 4 \<and> over (game m)"
    by (simp add: system_defs sample_defs)
  then obtain m where first: "run_frames [demo_frame_1] crash_world = Inr m"
    and mid_facts: "time m = 2/125 \<and> score m = 4 \<and> over (game m)"
    by blast
  have start_facts: "time crash_world = 0 \<and> score crash_world = 3 \<and>
      \<not> over (game crash_world)"
    by (simp add: sample_defs addEntity_def)
  from time_score_monotone [OF nonneg cut run] obtain mid where
    "run_frames [demo_frame_1] crash_world = Inr mid" and
    second: "run_frames [demo_frame_2] mid = Inr w'"
    by blast
  with first have "mid = m" by simp
  with second have "run_frames [demo_frame_2] m = Inr w'" by simp
  moreover have "map snd demo_frames = [2/125, 2/125]"
    by (simp add: demo_frames_def demo_frame_1_def demo_frame_2_def)
  ultimately show ?thesis
    using cut run first end_facts mid_facts start_facts by blast
qed

section \<open>The player stays\<close>

text \<open>
  Claim C7. In a well-formed world (exactly one entity with id \<open>player\<close>, which is untagged,
  and a position and a size on it and on every tagged entity) each of the eight systems
  returns a world with exactly one entity of id \<open>player\<close>. The collision and the cleanup
  system keep every untagged entity. A whole frame returns a well-formed world again, and
  every run from the initial world returns a world with exactly one player.
\<close>

theorem player_preserved:
  assumes "well_formed w"
  shows "player_count (timeSystem w dt) = 1 \<and>
         player_count (inputSystem st w dt) = 1 \<and>
         (\<exists>w'. movementSystem cv w dt = Inr w' \<and> player_count w' = 1) \<and>
         player_count (spawnerSystem cv rx rk w dt) = 1 \<and>
         player_count (fallingSystem w dt) = 1 \<and>
         player_count (difficultySystem w dt) = 1 \<and>
         (\<exists>w'. collisionSystem w dt = Inr w' \<and> player_count w' = 1 \<and>
            (\<forall>e\<in>set (entities w). tag (components e) = None \<longrightarrow> e \<in> set (entities w'))) \<and>
         (\<exists>w'. cleanupSystem cv w dt = Inr w' \<and> player_count w' = 1 \<and>
            (\<forall>e\<in>set (entities w). tag (components e) = None \<longrightarrow> e \<in> set (entities w'))) \<and>
         (\<exists>w'. update fr w dt = Inr w' \<and> player_count w' = 1 \<and> well_formed w') \<and>
         (\<exists>w'. run_frames frames (initial_world cv0) = Inr w' \<and> player_count w' = 1)"
proof -
  have count: "player_count v = 1" if "well_formed v" for v
    using that by (simp add: well_formed_def)
  have "player_count (timeSystem w dt) = 1"
    using assms by (simp add: timeSystem_def player_count_def well_formed_def)
  moreover have "player_count (inputSystem st w dt) = 1"
    using assms by (simp add: inputSystem_def player_count_def well_formed_def)
  moreover have "\<exists>w'. movementSystem cv w dt = Inr w' \<and> player_count w' = 1"
    using well_formed_movement [OF assms, of cv dt] count by blast
  moreover have "player_count (spawnerSystem cv rx rk w dt) = 1"
    using assms by (intro count well_formed_spawner)
  moreover have "player_count (fallingSystem w dt) = 1"
    using assms by (intro count well_formed_falling)
  moreover have "player_count (difficultySystem w dt) = 1"
    using assms by (intro count well_formed_difficulty)
  moreover have "\<exists>w'. collisionSystem w dt = Inr w' \<and> player_count w' = 1 \<and>
      (\<forall>e\<in>set (entities w). tag (components e) = None \<longrightarrow> e \<in> set (entities w'))"
    using well_formed_collision [OF assms, of dt] count by blast
  moreover have "\<exists>w'. cleanupSystem cv w dt = Inr w' \<and> player_count w' = 1 \<and>
      (\<forall>e\<in>set (entities w). tag (components e) = None \<longrightarrow> e \<in> set (entities w'))"
    using well_formed_cleanup [OF assms, of cv dt] count by blast
  moreover have "\<exists>w'. update fr w dt = Inr w' \<and> player_count w' = 1 \<and> well_formed w'"
    using well_formed_update [OF assms, of fr dt] count by blast
  moreover have "\<exists>w'. run_frames frames (initial_world cv0) = Inr w' \<and> player_count w' = 1"
    using well_formed_run [OF well_formed_initial, of frames cv0] count by blast
  ultimately show ?thesis by blast
qed

text \<open>The world where the player touches a good and a bad block is well-formed; after
  one frame it holds the player and the bad block.\<close>

theorem player_preserved_witness:
  "well_formed crash_world \<and>
   (\<exists>w'. update (fst demo_frame_1) crash_world (2/125) = Inr w' \<and>
      player_count w' = 1 \<and> map entity_id (entities w') = [''player'', ''bad_2''])"
proof -
  have wf: "well_formed crash_world"
    by (simp add: well_formed_def player_count_def players_untagged_def
        players_have_geometry_def blocks_have_geometry_def crash_world_def player_def
        demo_block_def)
  have "\<exists>v. update (fst demo_frame_1) crash_world (2/125) = Inr v \<and>
      map entity_id (entities v) = [''player'', ''bad_2'']"
    by (simp add: system_defs sample_defs)
  then obtain v where v: "update (fst demo_frame_1) crash_world (2/125) = Inr v"
    and ids: "map entity_id (entities v) = [''player'', ''bad_2'']"
    by (elim exE conjE)
  from player_preserved [OF wf, of "2/125" _ _ _ _ "fst demo_frame_1"]
  obtain w' where "update (fst demo_frame_1) crash_world (2/125) = Inr w'"
    and "player_count w' = 1"
    by blast
  with v ids wf show ?thesis by auto
qed

section \<open>When the systems throw\<close>

text \<open>The conditions on positions and sizes in the theorems above leave out exactly the
  worlds on which the system in question ends with a \<open>TypeError\<close>.\<close>

lemma movementSystem_returns_iff:
  "(\<exists>w'. movementSystem cv w dt = Inr w') \<longleftrightarrow>
   (\<forall>e\<in>set (entities w). entity_id e = ''player'' \<longrightarrow> position (components e) \<noteq> None)"
proof
  assume "\<exists>w'. movementSystem cv w dt = Inr w'"
  then obtain es where
    "list_all2 (\<lambda>x y. move_entity cv (input w) dt x = Inr y) (entities w) es"
    by (auto simp: movementSystem_def and_then_eq_Inr map_result_all2)
  then have moved: "\<exists>y. move_entity cv (input w) dt e = Inr y"
    if "e \<in> set (entities w)" for e
    using all2_target that by fastforce
  show "\<forall>e\<in>set (entities w). entity_id e = ''player'' \<longrightarrow> position (components e) \<noteq> None"
  proof (intro ballI impI)
    fix e assume "e \<in> set (entities w)" and "entity_id e = ''player''"
    with moved [of e] show "position (components e) \<noteq> None"
      by (cases "position (components e)") (simp_all add: move_entity_def)
  qed
next
  assume "\<forall>e\<in>set (entities w). entity_id e = ''player'' \<longrightarrow> position (components e) \<noteq> None"
  then show "\<exists>w'. movementSystem cv w dt = Inr w'"
    by (simp add: movementSystem_total)
qed

lemma on_screen_answers:
  "on_screen cv e = Inr b \<Longrightarrow> tag (components e) \<noteq> None \<Longrightarrow>
   position (components e) \<noteq> None \<and> size_c (components e) \<noteq> None"
  by (auto simp: on_screen_def split: option.splits)

lemma cleanupSystem_returns_iff:
  "(\<exists>w'. cleanupSystem cv w dt = Inr w') \<longleftrightarrow> blocks_have_geometry w"
proof
  assume "\<exists>w'. cleanupSystem cv w dt = Inr w'"
  then obtain es where "filter_result (on_screen cv) (entities w) = Inr es"
    by (auto simp: cleanupSystem_def and_then_eq_Inr)
  then have "\<exists>b. on_screen cv e = Inr b" if "e \<in> set (entities w)" for e
    using filter_result_answers that by fastforce
  then show "blocks_have_geometry w"
    unfolding blocks_have_geometry_def using on_screen_answers by blast
next
  assume "blocks_have_geometry w"
  then show "\<exists>w'. cleanupSystem cv w dt = Inr w'"
    by (simp add: cleanupSystem_total)
qed

lemma pickup_step_answers:
  "pickup_step pr e n = Inr r \<Longrightarrow> tag (components e) \<noteq> None \<Longrightarrow>
   position (components e) \<noteq> None \<and> size_c (components e) \<noteq> None"
  by (auto simp: pickup_step_def Let_def hitboxWithMargins_def and_then_eq_Inr
      split: option.splits)

lemma filter_earned_answers:
  "filter_earned pr es n = Inr r \<Longrightarrow> e \<in> set es \<Longrightarrow> tag (components e) \<noteq> None \<Longrightarrow>
   position (components e) \<noteq> None \<and> size_c (components e) \<noteq> None"
proof (induction es arbitrary: n r)
  case Nil
  then show ?case by simp
next
  case (Cons x es)
  from Cons.prems(1) obtain keep m r' where
    step: "pickup_step pr x n = Inr (keep, m)" and rest: "filter_earned pr es m = Inr r'"
    by (auto simp: and_then_eq_Inr split: prod.splits)
  show ?case
  proof (cases "e = x")
    case True
    with step Cons.prems(3) show ?thesis by (simp add: pickup_step_answers)
  next
    case False
    with Cons.prems(2) have "e \<in> set es" by simp
    from Cons.IH [OF rest this Cons.prems(3)] show ?thesis .
  qed
qed

lemma collisionSystem_returns_iff:
  assumes "\<not> over (game w)"
    and "find (\<lambda>e. entity_id e = ''player'') (entities w) = Some pl"
  shows "(\<exists>w'. collisionSystem w dt = Inr w') \<longleftrightarrow>
         position (components pl) \<noteq> None \<and> size_c (components pl) \<noteq> None \<and>
         blocks_have_geometry w"
proof
  assume "\<exists>w'. collisionSystem w dt = Inr w'"
  with assms obtain pr r where
    box: "hitboxWithMargins (position (components pl)) (size_c (components pl))
            PLAYER_MARGINS = Inr pr" and
    kept: "filter_earned pr (entities w) 0 = Inr r"
    by (auto simp: collisionSystem_def and_then_eq_Inr)
  from box have "position (components pl) \<noteq> None \<and> size_c (components pl) \<noteq> None"
    by (auto simp: hitboxWithMargins_def split: option.splits)
  moreover have "blocks_have_geometry w"
    unfolding blocks_have_geometry_def using filter_earned_answers [OF kept] by blast
  ultimately show "position (components pl) \<noteq> None \<and> size_c (components pl) \<noteq> None \<and>
      blocks_have_geometry w"
    by simp
next
  assume ok: "position (components pl) \<noteq> None \<and> size_c (components pl) \<noteq> None \<and>
      blocks_have_geometry w"
  then obtain pr where
    "hitboxWithMargins (position (components pl)) (size_c (components pl)) PLAYER_MARGINS
       = Inr pr"
    by (auto simp: hitboxWithMargins_def)
  with assms ok show "\<exists>w'. collisionSystem w dt = Inr w'"
    by (simp add: collisionSystem_total)
qed

text \<open>A block without a position makes both the collision and the cleanup system throw.\<close>

lemma broken_world_throws:
  "collisionSystem broken_world (2/125) = Inl TypeError \<and>
   cleanupSystem demo_canvas broken_world (2/125) = Inl TypeError"
  by (simp add: collisionSystem_def cleanupSystem_def on_screen_def pickup_step_def
      hitboxWithMargins_def broken_world_def initial_world_def createWorld_def addEntity_def
      player_def demo_block_def demo_canvas_def PLAYER_MARGINS_def BAD_MARGINS_def
      PLAYER_SIZE_def Let_def)


end
